theory Spec2Isabelle
  imports Main "HOL-Library.Char_ord" "HOL-Library.List_Lexorder"
begin

section \<open>Python values used by \<^verbatim>\<open>ingest_papers.py\<close>\<close>

text \<open>
  A Python \<^verbatim>\<open>str\<close> is modelled as a \<^typ>\<open>string\<close>: a list of characters, each
  character standing for the code point of the same number. The model therefore covers the
  strings whose code points are below 256 (ASCII and Latin-1); the character classes below
  are Python's classes restricted to that range.
\<close>

subsection \<open>Character classes\<close>

definition code :: "char \<Rightarrow> nat" where
  "code c = of_char c"

text \<open>\<^verbatim>\<open>str.isspace\<close>, which is also the class \<^verbatim>\<open>\s\<close> of \<^verbatim>\<open>re\<close> and what
  \<^verbatim>\<open>str.split()\<close> and \<^verbatim>\<open>str.strip()\<close> remove.\<close>

definition py_isspace :: "char \<Rightarrow> bool" where
  "py_isspace c = ((9 \<le> code c \<and> code c \<le> 13) \<or> (28 \<le> code c \<and> code c \<le> 32)
     \<or> code c = 133 \<or> code c = 160)"

text \<open>The line boundaries of \<^verbatim>\<open>str.splitlines\<close>.\<close>

definition is_linebreak :: "char \<Rightarrow> bool" where
  "is_linebreak c = ((10 \<le> code c \<and> code c \<le> 13) \<or> (28 \<le> code c \<and> code c \<le> 30)
     \<or> code c = 133)"

text \<open>The class \<^verbatim>\<open>\d\<close> of \<^verbatim>\<open>re\<close>: the decimal digits.\<close>

definition py_isdigit :: "char \<Rightarrow> bool" where
  "py_isdigit c = (48 \<le> code c \<and> code c \<le> 57)"

text \<open>The class \<^verbatim>\<open>\w\<close> of \<^verbatim>\<open>re\<close>: alphanumeric characters and the underscore.\<close>

definition py_isword :: "char \<Rightarrow> bool" where
  "py_isword c = (py_isdigit c \<or> (65 \<le> code c \<and> code c \<le> 90) \<or> code c = 95
     \<or> (97 \<le> code c \<and> code c \<le> 122)
     \<or> code c \<in> {170, 178, 179, 181, 185, 186, 188, 189, 190}
     \<or> (192 \<le> code c \<and> code c \<noteq> 215 \<and> code c \<noteq> 247))"

text \<open>\<^verbatim>\<open>str.lower\<close> on one character.\<close>

definition py_lower_char :: "char \<Rightarrow> char" where
  "py_lower_char c =
     (if (65 \<le> code c \<and> code c \<le> 90) \<or> (192 \<le> code c \<and> code c \<le> 222 \<and> code c \<noteq> 215)
      then char_of (code c + 32) else c)"

definition py_lower :: "string \<Rightarrow> string" where
  "py_lower s = map py_lower_char s"

subsection \<open>String methods\<close>

text \<open>\<^verbatim>\<open>s.split()\<close>: the maximal runs of non-whitespace characters, scanned left to
  right; the second argument is the word being read.\<close>

fun split_ws_acc :: "string \<Rightarrow> string \<Rightarrow> string list" where
  "split_ws_acc [] w = (if w = [] then [] else [w])"
| "split_ws_acc (c # cs) w =
     (if py_isspace c then (if w = [] then split_ws_acc cs [] else w # split_ws_acc cs [])
      else split_ws_acc cs (w @ [c]))"

definition py_split :: "string \<Rightarrow> string list" where
  "py_split s = split_ws_acc s []"

text \<open>\<^verbatim>\<open>s.strip()\<close>.\<close>

definition py_strip :: "string \<Rightarrow> string" where
  "py_strip s = rev (dropWhile py_isspace (rev (dropWhile py_isspace s)))"

text \<open>\<^verbatim>\<open>sep.join(parts)\<close>.\<close>

fun py_join :: "string \<Rightarrow> string list \<Rightarrow> string" where
  "py_join sep [] = []"
| "py_join sep [x] = x"
| "py_join sep (x # y # ys) = x @ sep @ py_join sep (y # ys)"

text \<open>\<^verbatim>\<open>s.split(d)\<close> for a one-character separator: always at least one part.\<close>

fun split_on_acc :: "char \<Rightarrow> string \<Rightarrow> string \<Rightarrow> string list" where
  "split_on_acc d [] cur = [cur]"
| "split_on_acc d (c # cs) cur =
     (if c = d then cur # split_on_acc d cs [] else split_on_acc d cs (cur @ [c]))"

definition py_split_on :: "char \<Rightarrow> string \<Rightarrow> string list" where
  "py_split_on d s = split_on_acc d s []"

fun startswith :: "string \<Rightarrow> string \<Rightarrow> bool" where
  "startswith s [] = True"
| "startswith [] (p # ps) = False"
| "startswith (c # cs) (p # ps) = (c = p \<and> startswith cs ps)"

text \<open>\<^verbatim>\<open>s.replace(old, new)\<close> for a non-empty \<^verbatim>\<open>old\<close>: the occurrences are found left
  to right and do not overlap. The counter is the number of characters of a replaced
  occurrence still to be skipped.\<close>

fun replace_aux :: "string \<Rightarrow> string \<Rightarrow> nat \<Rightarrow> string \<Rightarrow> string" where
  "replace_aux old new k [] = []"
| "replace_aux old new k (c # cs) =
     (if 0 < k then replace_aux old new (k - 1) cs
      else if startswith (c # cs) old then new @ replace_aux old new (length old - 1) cs
      else c # replace_aux old new 0 cs)"

definition py_replace :: "string \<Rightarrow> string \<Rightarrow> string \<Rightarrow> string" where
  "py_replace s old new = replace_aux old new 0 s"

text \<open>\<^verbatim>\<open>s.splitlines()\<close>: a carriage return followed by a line feed is one boundary,
  and a final boundary opens no further line.\<close>

fun splitlines_acc :: "string \<Rightarrow> string \<Rightarrow> string list" where
  "splitlines_acc [] cur = (if cur = [] then [] else [cur])"
| "splitlines_acc [c] cur = (if is_linebreak c then [cur] else [cur @ [c]])"
| "splitlines_acc (c # d # cs) cur =
     (if code c = 13 \<and> code d = 10 then cur # splitlines_acc cs []
      else if is_linebreak c then cur # splitlines_acc (d # cs) []
      else splitlines_acc (d # cs) (cur @ [c]))"

definition py_splitlines :: "string \<Rightarrow> string list" where
  "py_splitlines s = splitlines_acc s []"

text \<open>\<^verbatim>\<open>xs[:n]\<close> for any integer \<^verbatim>\<open>n\<close>: a negative bound counts from the end.\<close>

definition py_slice_to :: "'a list \<Rightarrow> int \<Rightarrow> 'a list" where
  "py_slice_to xs n = (if 0 \<le> n then take (nat n) xs else take (length xs - nat (- n)) xs)"

text \<open>\<^verbatim>\<open>int(s)\<close> on a string of decimal digits.\<close>

definition digit_val :: "char \<Rightarrow> int" where
  "digit_val c = int (code c) - 48"

definition py_int :: "string \<Rightarrow> int" where
  "py_int s = foldl (\<lambda>a c. 10 * a + digit_val c) 0 s"

text \<open>Truthiness of an optional string, and \<^verbatim>\<open>a or b\<close> on optional strings.\<close>

definition truthy :: "string option \<Rightarrow> bool" where
  "truthy v = (case v of None \<Rightarrow> False | Some s \<Rightarrow> s \<noteq> [])"

definition py_or :: "string option \<Rightarrow> string option \<Rightarrow> string option" where
  "py_or a b = (if truthy a then a else b)"

section \<open>Whitespace normalization\<close>

text \<open>
  \<^verbatim>\<open>
  def normalize_whitespace(value):
      if not value:
          return None
      return " ".join(value.split()).strip() or None
  \<close>
\<close>

definition normalize_whitespace :: "string option \<Rightarrow> string option" where
  "normalize_whitespace v =
     (case v of
        None \<Rightarrow> None
      | Some s \<Rightarrow>
          if s = [] then None
          else (let r = py_strip (py_join '' '' (py_split s))
                in if r = [] then None else Some r))"

section \<open>Regular expressions\<close>

text \<open>
  The patterns of the program use a small part of Python's \<^verbatim>\<open>re\<close>: literal characters,
  the classes \<^verbatim>\<open>\d\<close>, \<^verbatim>\<open>\s\<close>, \<^verbatim>\<open>.\<close> and \<^verbatim>\<open>[:\-]\<close>, the word boundary
  \<^verbatim>\<open>\b\<close>, sequence, alternation, one capture group, and the repetitions \<^verbatim>\<open>?\<close>,
  \<^verbatim>\<open>*\<close>, \<^verbatim>\<open>+\<close> and \<^verbatim>\<open>+?\<close> of a single character class.
\<close>

datatype cset = Lit char | OneOf "char list" | Digit | Space | AnyButNL | AnyChar

datatype re =
    Eps
  | Ch cset
  | WordB
  | Cat re re
  | Alt re re
  | Opt cset
  | Star cset
  | Plus cset
  | PlusLazy cset
  | Grp re

type_synonym capture = "(nat \<times> nat) option"

text \<open>Whether a character is in a class; the flag is \<^verbatim>\<open>re.IGNORECASE\<close>.\<close>

fun cs_match :: "bool \<Rightarrow> cset \<Rightarrow> char \<Rightarrow> bool" where
  "cs_match ic (Lit d) c = (if ic then py_lower_char c = py_lower_char d else c = d)"
| "cs_match ic (OneOf ds) c =
     (if ic then py_lower_char c \<in> set (map py_lower_char ds) else c \<in> set ds)"
| "cs_match ic Digit c = py_isdigit c"
| "cs_match ic Space c = py_isspace c"
| "cs_match ic AnyButNL c = (code c \<noteq> 10)"
| "cs_match ic AnyChar c = True"

text \<open>\<^verbatim>\<open>\b\<close> at position \<open>i\<close>: exactly one of the characters before and at \<open>i\<close> is a
  word character (outside the string counts as a non-word character).\<close>

definition word_boundary :: "string \<Rightarrow> nat \<Rightarrow> bool" where
  "word_boundary s i =
     ((0 < i \<and> i \<le> length s \<and> py_isword (s ! (i - 1))) \<noteq> (i < length s \<and> py_isword (s ! i)))"

text \<open>The number of consecutive characters of the class from position \<open>i\<close> on.\<close>

definition run :: "bool \<Rightarrow> cset \<Rightarrow> string \<Rightarrow> nat \<Rightarrow> nat" where
  "run ic cs s i = length (takeWhile (cs_match ic cs) (drop i s))"

text \<open>
  The backtracking matcher: all the ways the pattern matches from position \<open>i\<close>, each with
  the position where it ends and the capture group, in the order in which the engine tries
  them (a greedy repetition tries the longest first, a lazy one the shortest, an alternation
  its left branch). The engine's match is the first of them.
\<close>

fun ms :: "bool \<Rightarrow> string \<Rightarrow> re \<Rightarrow> nat \<Rightarrow> capture \<Rightarrow> (nat \<times> capture) list" where
  "ms ic s Eps i g = [(i, g)]"
| "ms ic s (Ch cs) i g = (if i < length s \<and> cs_match ic cs (s ! i) then [(Suc i, g)] else [])"
| "ms ic s WordB i g = (if word_boundary s i then [(i, g)] else [])"
| "ms ic s (Cat a b) i g = concat (map (\<lambda>(j, g'). ms ic s b j g') (ms ic s a i g))"
| "ms ic s (Alt a b) i g = ms ic s a i g @ ms ic s b i g"
| "ms ic s (Opt cs) i g =
     (if i < length s \<and> cs_match ic cs (s ! i) then [(Suc i, g), (i, g)] else [(i, g)])"
| "ms ic s (Star cs) i g = map (\<lambda>k. (i + k, g)) (rev [0..<Suc (run ic cs s i)])"
| "ms ic s (Plus cs) i g = map (\<lambda>k. (i + k, g)) (rev [1..<Suc (run ic cs s i)])"
| "ms ic s (PlusLazy cs) i g = map (\<lambda>k. (i + k, g)) [1..<Suc (run ic cs s i)]"
| "ms ic s (Grp a) i g = map (\<lambda>(j, g'). (j, Some (i, j))) (ms ic s a i g)"

text \<open>A match: where it starts, where it ends, and the capture group.\<close>

record rmatch =
  m_start :: nat
  m_end :: nat
  m_group :: capture

text \<open>\<^verbatim>\<open>re.search\<close>: the first match at the leftmost position that has one.\<close>

fun search_from :: "bool \<Rightarrow> re \<Rightarrow> string \<Rightarrow> nat list \<Rightarrow> rmatch option" where
  "search_from ic r s [] = None"
| "search_from ic r s (i # is) =
     (case ms ic s r i None of
        [] \<Rightarrow> search_from ic r s is
      | (j, g) # rest \<Rightarrow> Some \<lparr>m_start = i, m_end = j, m_group = g\<rparr>)"

definition re_search :: "bool \<Rightarrow> re \<Rightarrow> string \<Rightarrow> rmatch option" where
  "re_search ic r s = search_from ic r s [0..<Suc (length s)]"

definition substring :: "string \<Rightarrow> nat \<Rightarrow> nat \<Rightarrow> string" where
  "substring s i j = take (j - i) (drop i s)"

text \<open>\<^verbatim>\<open>match.group(0)\<close> and \<^verbatim>\<open>match.group(1)\<close> (the patterns' group always takes part
  in a match).\<close>

definition group0 :: "string \<Rightarrow> rmatch \<Rightarrow> string" where
  "group0 s m = substring s (m_start m) (m_end m)"

definition group1 :: "string \<Rightarrow> rmatch \<Rightarrow> string" where
  "group1 s m = (case m_group m of None \<Rightarrow> [] | Some (i, j) \<Rightarrow> substring s i j)"

fun lit :: "string \<Rightarrow> re" where
  "lit [] = Eps"
| "lit (c # cs) = Cat (Ch (Lit c)) (lit cs)"

text \<open>\<^verbatim>\<open>(19|20)\d{2}\<close>\<close>

definition re_yyyy :: re where
  "re_yyyy = Cat (Alt (lit ''19'') (lit ''20'')) (Cat (Ch Digit) (Ch Digit))"

text \<open>\<^verbatim>\<open>-\d{2}\<close>\<close>

definition re_dash2 :: re where
  "re_dash2 = Cat (Ch (Lit CHR ''-'')) (Cat (Ch Digit) (Ch Digit))"

text \<open>\<^verbatim>\<open>\b(19|20)\d{2}-\d{2}-\d{2}\b\<close>\<close>

definition re_iso_date :: re where
  "re_iso_date = Cat WordB (Cat re_yyyy (Cat re_dash2 (Cat re_dash2 WordB)))"

text \<open>\<^verbatim>\<open>\b(19|20)\d{2}-\d{2}\b\<close>\<close>

definition re_year_month :: re where
  "re_year_month = Cat WordB (Cat re_yyyy (Cat re_dash2 WordB))"

text \<open>\<^verbatim>\<open>\b(19|20)\d{2}\b\<close>\<close>

definition re_year :: re where
  "re_year = Cat WordB (Cat re_yyyy WordB)"

text \<open>\<^verbatim>\<open>\s*[:\-]\s*(.+)\<close>, the tail shared by the two label patterns.\<close>

definition re_label_tail :: re where
  "re_label_tail = Cat (Star Space) (Cat (Ch (OneOf '':-'')) (Cat (Star Space) (Grp (Plus AnyButNL))))"

text \<open>\<^verbatim>\<open>Authors?\s*[:\-]\s*(.+)\<close>\<close>

definition re_authors :: re where
  "re_authors = Cat (lit ''Author'') (Cat (Opt (Lit CHR ''s'')) re_label_tail)"

text \<open>\<^verbatim>\<open>(?:Keywords?|Index Terms?)\s*[:\-]\s*(.+)\<close>\<close>

definition re_keywords :: re where
  "re_keywords =
     Cat (Alt (Cat (lit ''Keyword'') (Opt (Lit CHR ''s'')))
              (Cat (lit ''Index Term'') (Opt (Lit CHR ''s''))))
         re_label_tail"

text \<open>\<^verbatim>\<open>\bAbstract\b\s*[:\-]?\s*(.+?)(?:\n\s*\n|\bIntroduction\b|\bKeywords\b)\<close>, used with
  \<^verbatim>\<open>re.DOTALL\<close>, so that the dot is any character.\<close>

definition re_abstract :: re where
  "re_abstract =
     Cat WordB (Cat (lit ''Abstract'') (Cat WordB
       (Cat (Star Space) (Cat (Opt (OneOf '':-'')) (Cat (Star Space)
         (Cat (Grp (PlusLazy AnyChar))
           (Alt (Cat (Ch (Lit (char_of (10::nat)))) (Cat (Star Space) (Ch (Lit (char_of (10::nat))))))
             (Alt (Cat WordB (Cat (lit ''Introduction'') WordB))
                  (Cat WordB (Cat (lit ''Keywords'') WordB))))))))))"

section \<open>Exceptions\<close>

text \<open>The exceptions that the modelled code can raise or let through. A function that can
  raise returns \<open>Inl\<close> of the exception, or \<open>Inr\<close> of its value.\<close>

datatype exn = PdfReadError | OSError | ValueError | IndexError | OtherError

section \<open>Dates\<close>

datatype date = Date (date_year: int) (date_month: int) (date_day: int)

definition is_leap :: "int \<Rightarrow> bool" where
  "is_leap y = (y mod 4 = 0 \<and> (y mod 100 \<noteq> 0 \<or> y mod 400 = 0))"

definition days_in_month :: "int \<Rightarrow> int \<Rightarrow> int" where
  "days_in_month y m =
     (if m = 2 then (if is_leap y then 29 else 28)
      else if m = 4 \<or> m = 6 \<or> m = 9 \<or> m = 11 then 30 else 31)"

text \<open>The constructor \<^verbatim>\<open>date(y, m, d)\<close>, which raises \<^verbatim>\<open>ValueError\<close> on a date that
  does not exist.\<close>

definition make_date :: "int \<Rightarrow> int \<Rightarrow> int \<Rightarrow> exn + date" where
  "make_date y m d =
     (if 1 \<le> y \<and> y \<le> 9999 \<and> 1 \<le> m \<and> m \<le> 12 \<and> 1 \<le> d \<and> d \<le> days_in_month y m
      then Inr (Date y m d) else Inl ValueError)"

text \<open>\<^verbatim>\<open>date.fromisoformat\<close> on a string of the form \<^verbatim>\<open>YYYY-MM-DD\<close>; any other string
  that the program could pass is refused with \<^verbatim>\<open>ValueError\<close>.\<close>

definition fromisoformat :: "string \<Rightarrow> exn + date" where
  "fromisoformat s =
     (if length s = 10 \<and> s ! 4 = CHR ''-'' \<and> s ! 7 = CHR ''-''
         \<and> list_all py_isdigit (take 4 s @ take 2 (drop 5 s) @ take 2 (drop 8 s))
      then make_date (py_int (take 4 s)) (py_int (take 2 (drop 5 s))) (py_int (take 2 (drop 8 s)))
      else Inl ValueError)"

text \<open>
  \<^verbatim>\<open>
  def parse_publication_date(value):
      if not value:
          return None
      value = value.strip()
      match = re.search(r"\b(19|20)\d{2}-\d{2}-\d{2}\b", value)
      if match:
          return date.fromisoformat(match.group(0))
      match = re.search(r"\b(19|20)\d{2}-\d{2}\b", value)
      if match:
          year, month = match.group(0).split("-")
          return date(int(year), int(month), 1)
      match = re.search(r"\b(19|20)\d{2}\b", value)
      if match:
          return date(int(match.group(0)), 1, 1)
      return None
  \<close>
\<close>

definition some_date :: "exn + date \<Rightarrow> exn + date option" where
  "some_date r = (case r of Inl e \<Rightarrow> Inl e | Inr d \<Rightarrow> Inr (Some d))"

definition parse_publication_date :: "string option \<Rightarrow> exn + date option" where
  "parse_publication_date v =
     (if \<not> truthy v then Inr None
      else
        let s = py_strip (the v) in
        (case re_search False re_iso_date s of
           Some m \<Rightarrow> some_date (fromisoformat (group0 s m))
         | None \<Rightarrow>
        (case re_search False re_year_month s of
           Some m \<Rightarrow>
             (case py_split_on CHR ''-'' (group0 s m) of
                [y, mo] \<Rightarrow> some_date (make_date (py_int y) (py_int mo) 1)
              | _ \<Rightarrow> Inl ValueError)
         | None \<Rightarrow>
        (case re_search False re_year s of
           Some m \<Rightarrow> some_date (make_date (py_int (group0 s m)) 1 1)
         | None \<Rightarrow> Inr None))))"

text \<open>
  \<^verbatim>\<open>
  def extract_year(text):
      match = re.search(r"\b(19|20)\d{2}\b", text)
      if match:
          return int(match.group(0))
      return None
  \<close>
\<close>

definition extract_year :: "string \<Rightarrow> int option" where
  "extract_year t =
     (case re_search False re_year t of
        Some m \<Rightarrow> Some (py_int (group0 t m))
      | None \<Rightarrow> None)"

text \<open>Truthiness of an optional integer.\<close>

definition truthy_int :: "int option \<Rightarrow> bool" where
  "truthy_int y = (case y of None \<Rightarrow> False | Some n \<Rightarrow> n \<noteq> 0)"

section \<open>The parsed response: \<^verbatim>\<open>xml.etree.ElementTree\<close>\<close>

text \<open>An element has a tag, attributes, the text before its first child, its children, and
  the text that follows it inside its parent (its tail).\<close>

datatype element =
  Element (el_tag: string) (el_attrib: "(string \<times> string) list") (el_text: "string option")
    (el_children: "element list") (el_tail: "string option")

text \<open>\<^verbatim>\<open>element.attrib.get(key)\<close>\<close>

definition attrib_get :: "element \<Rightarrow> string \<Rightarrow> string option" where
  "attrib_get e k = map_of (el_attrib e) k"

text \<open>The elements below an element, in document order (the element itself is not one).\<close>

fun descendants :: "element \<Rightarrow> element list" where
  "descendants (Element t a x cs tx) = concat (map (\<lambda>c. c # descendants c) cs)"

text \<open>\<^verbatim>\<open>element.itertext()\<close>: the non-empty texts and tails inside the element, in
  document order.\<close>

definition opt_text :: "string option \<Rightarrow> string list" where
  "opt_text v = (if truthy v then [the v] else [])"

fun itertext :: "element \<Rightarrow> string list" where
  "itertext (Element t a x cs tx) =
     opt_text x @ concat (map (\<lambda>c. itertext c @ opt_text (el_tail c)) cs)"

text \<open>
  The steps of the paths of the program: \<^verbatim>\<open>//tag\<close> selects the elements with the tag
  below each current element, \<^verbatim>\<open>/tag\<close> its children with the tag, and
  \<^verbatim>\<open>[@key='value']\<close> keeps the current elements whose attribute has the value. Every
  path of the program starts at the element it is applied to (\<^verbatim>\<open>.\<close>). The steps are
  applied one after the other to the sequence of current elements, and nothing removes an
  element that is reached twice.
\<close>

datatype step = Desc string | Child string | AttrEq string string

fun select :: "step \<Rightarrow> element list \<Rightarrow> element list" where
  "select (Desc t) es = concat (map (\<lambda>e. filter (\<lambda>d. el_tag d = t) (descendants e)) es)"
| "select (Child t) es = concat (map (\<lambda>e. filter (\<lambda>d. el_tag d = t) (el_children e)) es)"
| "select (AttrEq k v) es = filter (\<lambda>e. attrib_get e k = Some v) es"

text \<open>\<^verbatim>\<open>element.findall(path)\<close>, \<^verbatim>\<open>element.find(path)\<close> and
  \<^verbatim>\<open>element.findtext(path)\<close>; the last returns the empty string for an element that is
  found and has no text.\<close>

definition findall :: "element \<Rightarrow> step list \<Rightarrow> element list" where
  "findall e path = foldl (\<lambda>es st. select st es) [e] path"

definition find :: "element \<Rightarrow> step list \<Rightarrow> element option" where
  "find e path = (case findall e path of [] \<Rightarrow> None | x # xs \<Rightarrow> Some x)"

definition findtext :: "element \<Rightarrow> step list \<Rightarrow> string option" where
  "findtext e path =
     (case find e path of
        None \<Rightarrow> None
      | Some x \<Rightarrow> (case el_text x of None \<Rightarrow> Some [] | Some t \<Rightarrow> Some t))"

text \<open>A name in the TEI namespace, which the program writes \<^verbatim>\<open>tei:name\<close>.\<close>

definition tei :: "string \<Rightarrow> string" where
  "tei n = ''{http://www.tei-c.org/ns/1.0}'' @ n"

section \<open>The structured-service extractor\<close>

text \<open>
  \<^verbatim>\<open>
  def element_text(element):
      if element is None:
          return None
      return normalize_whitespace(" ".join(element.itertext()))
  \<close>
\<close>

definition element_text :: "element option \<Rightarrow> string option" where
  "element_text e =
     (case e of None \<Rightarrow> None | Some x \<Rightarrow> normalize_whitespace (Some (py_join '' '' (itertext x))))"

text \<open>
  \<^verbatim>\<open>
  def parse_grobid_author(author_el, ns):
      surname = author_el.findtext(".//tei:surname", namespaces=ns) or ""
      forenames = author_el.findall(".//tei:forename", namespaces=ns)
      forename = " ".join([el.text for el in forenames if el.text]) if forenames else ""
      full_name = " ".join(part for part in [forename, surname] if part).strip()
      return full_name or None
  \<close>
\<close>

definition or_empty :: "string option \<Rightarrow> string" where
  "or_empty v = (case v of None \<Rightarrow> [] | Some s \<Rightarrow> s)"

definition parse_grobid_author :: "element \<Rightarrow> string option" where
  "parse_grobid_author author_el =
     (let surname = or_empty (findtext author_el [Desc (tei ''surname'')]);
          forenames = findall author_el [Desc (tei ''forename'')];
          forename = (if forenames \<noteq> []
                      then py_join '' '' (concat (map (\<lambda>el. opt_text (el_text el)) forenames))
                      else []);
          full_name = py_strip (py_join '' '' (filter (\<lambda>part. part \<noteq> []) [forename, surname]))
      in if full_name = [] then None else Some full_name)"

text \<open>
  \<^verbatim>\<open>
  def extract_document_type(root, ns):
      bibl_struct = root.find(".//tei:biblStruct", namespaces=ns)
      if bibl_struct is not None:
          bibl_type = bibl_struct.attrib.get("type")
          if bibl_type:
              return normalize_whitespace(bibl_type)
      for class_code in root.findall(".//tei:textClass//tei:classCode", namespaces=ns):
          if class_code.text:
              return normalize_whitespace(class_code.text)
      for term in root.findall(".//tei:textClass//tei:keywords//tei:term", namespaces=ns):
          if term.text and len(term.text.split()) <= 4:
              candidate = term.text.strip().lower()
              if candidate in {"article", "review", "book", "chapter", "conference", "preprint"}:
                  return candidate
      return None
  \<close>
\<close>

definition document_types :: "string list" where
  "document_types = [''article'', ''review'', ''book'', ''chapter'', ''conference'', ''preprint'']"

fun first_class_code :: "element list \<Rightarrow> string option option" where
  "first_class_code [] = None"
| "first_class_code (c # cs) =
     (if truthy (el_text c) then Some (normalize_whitespace (el_text c)) else first_class_code cs)"

fun first_type_term :: "element list \<Rightarrow> string option" where
  "first_type_term [] = None"
| "first_type_term (t # ts) =
     (if truthy (el_text t) \<and> length (py_split (the (el_text t))) \<le> 4
         \<and> py_lower (py_strip (the (el_text t))) \<in> set document_types
      then Some (py_lower (py_strip (the (el_text t))))
      else first_type_term ts)"

definition extract_document_type :: "element \<Rightarrow> string option" where
  "extract_document_type root =
     (let bibl_type = (case find root [Desc (tei ''biblStruct'')] of
                         None \<Rightarrow> None
                       | Some bibl_struct \<Rightarrow> attrib_get bibl_struct ''type'')
      in if truthy bibl_type then normalize_whitespace bibl_type
         else (case first_class_code
                      (findall root [Desc (tei ''textClass''), Desc (tei ''classCode'')]) of
                 Some r \<Rightarrow> r
               | None \<Rightarrow>
                   first_type_term
                     (findall root [Desc (tei ''textClass''), Desc (tei ''keywords''),
                                    Desc (tei ''term'')])))"

text \<open>
  \<^verbatim>\<open>
  def extract_affiliations(author_el, ns):
      affiliations = []
      for aff in author_el.findall(".//tei:affiliation", namespaces=ns):
          parts = []
          for org in aff.findall(".//tei:orgName", namespaces=ns):
              org_text = element_text(org)
              if org_text:
                  parts.append(org_text)
          address = aff.find(".//tei:address", namespaces=ns)
          address_text = element_text(address)
          if address_text:
              parts.append(address_text)
          if parts:
              affiliations.append(normalize_whitespace(", ".join(parts)))
      return [aff for aff in affiliations if aff]
  \<close>
\<close>

definition affiliation_parts :: "element \<Rightarrow> string list" where
  "affiliation_parts aff =
     concat (map (\<lambda>org. opt_text (element_text (Some org))) (findall aff [Desc (tei ''orgName'')]))
     @ opt_text (element_text (find aff [Desc (tei ''address'')]))"

definition extract_affiliations :: "element \<Rightarrow> string list" where
  "extract_affiliations author_el =
     (let affiliations =
            concat (map (\<lambda>aff. let parts = affiliation_parts aff
                                in if parts \<noteq> [] then [normalize_whitespace (Some (py_join '', '' parts))]
                                   else [])
                        (findall author_el [Desc (tei ''affiliation'')]))
      in concat (map opt_text affiliations))"

text \<open>
  \<^verbatim>\<open>
  def extract_countries(author_el, ns):
      countries = []
      for country_el in author_el.findall(".//tei:affiliation//tei:address//tei:country", namespaces=ns):
          country = normalize_whitespace(country_el.text)
          if country:
              countries.append(country)
      return countries
  \<close>
\<close>

definition extract_countries :: "element \<Rightarrow> string list" where
  "extract_countries author_el =
     concat (map (\<lambda>country_el. opt_text (normalize_whitespace (el_text country_el)))
                 (findall author_el
                    [Desc (tei ''affiliation''), Desc (tei ''address''), Desc (tei ''country'')]))"

section \<open>Metadata records\<close>

text \<open>A metadata record is a Python dictionary from field names to values; the keys keep
  the order in which they were inserted. A value is \<^verbatim>\<open>None\<close>, a string, an integer, a
  date or a list of strings.\<close>

datatype pyval = PNone | PStr string | PInt int | PDate date | PList "string list"

type_synonym pydict = "(string \<times> pyval) list"

text \<open>\<^verbatim>\<open>d[k] = v\<close>: an existing key keeps its place, a new key goes last.\<close>

fun dict_set :: "pydict \<Rightarrow> string \<Rightarrow> pyval \<Rightarrow> pydict" where
  "dict_set [] k v = [(k, v)]"
| "dict_set ((k', v') # d) k v = (if k' = k then (k, v) # d else (k', v') # dict_set d k v)"

text \<open>\<^verbatim>\<open>d.get(k)\<close>\<close>

definition dict_get :: "pydict \<Rightarrow> string \<Rightarrow> pyval option" where
  "dict_get d k = map_of d k"

text \<open>Optional values as dictionary values, and \<^verbatim>\<open>xs or None\<close> on a list.\<close>

definition str_val :: "string option \<Rightarrow> pyval" where
  "str_val v = (case v of None \<Rightarrow> PNone | Some s \<Rightarrow> PStr s)"

definition int_val :: "int option \<Rightarrow> pyval" where
  "int_val v = (case v of None \<Rightarrow> PNone | Some n \<Rightarrow> PInt n)"

definition date_val :: "date option \<Rightarrow> pyval" where
  "date_val v = (case v of None \<Rightarrow> PNone | Some d \<Rightarrow> PDate d)"

definition list_or_none :: "string list \<Rightarrow> pyval" where
  "list_or_none xs = (if xs = [] then PNone else PList xs)"

text \<open>\<^verbatim>\<open>sorted(set(xs))\<close> on strings: ascending in the order of the code points, without
  duplicates.\<close>

definition sorted_set :: "string list \<Rightarrow> string list" where
  "sorted_set xs = sort (remdups xs)"

section \<open>The structured-service extractor, continued\<close>

text \<open>What the request to the service can do: the file cannot be opened (an \<^verbatim>\<open>OSError\<close>,
  which the program does not catch), the request raises a
  \<^verbatim>\<open>requests.RequestException\<close>, or a response arrives with a status code and a body.
  The body is given by its parse: the root element, or nothing when it is not well-formed
  XML (\<^verbatim>\<open>ElementTree.ParseError\<close>).\<close>

datatype response = Response (status_code: int) (body: "element option")

datatype post_outcome = CannotOpen | RequestException | Answered response

text \<open>\<^verbatim>\<open>response.raise_for_status()\<close> raises for the client and server error codes.\<close>

definition raises_for_status :: "response \<Rightarrow> bool" where
  "raises_for_status r = (400 \<le> status_code r \<and> status_code r < 600)"

text \<open>
  The loop over the authors of one section:
  \<^verbatim>\<open>
  for author_el in root.findall(...):
      author_name = parse_grobid_author(author_el, ns)
      if author_name:
          authors.append(author_name)
      affiliations.extend(extract_affiliations(author_el, ns))
      countries.extend(extract_countries(author_el, ns))
  \<close>
  The state is the three lists.
\<close>

fun collect_authors ::
  "element list \<Rightarrow> string list \<times> string list \<times> string list
     \<Rightarrow> string list \<times> string list \<times> string list" where
  "collect_authors [] st = st"
| "collect_authors (author_el # es) (authors, affiliations, countries) =
     collect_authors es
       (authors @ opt_text (parse_grobid_author author_el),
        affiliations @ extract_affiliations author_el,
        countries @ extract_countries author_el)"

text \<open>
  The loop over the date nodes of the publication statement; the state is
  \<^verbatim>\<open>(publication_date, year)\<close>, and the loop ends at the first \<^verbatim>\<open>break\<close>:
  \<^verbatim>\<open>
  for date_el in root.findall(".//tei:publicationStmt//tei:date", namespaces=ns):
      publication_date = parse_publication_date(date_el.attrib.get("when") or date_el.text)
      if publication_date:
          year = publication_date.year
          break
      if date_el.text:
          year = extract_year(date_el.text)
          if year:
              break
      when_attr = date_el.attrib.get("when")
      if when_attr:
          year = extract_year(when_attr)
          if year:
              break
  \<close>
\<close>

fun publication_stmt_loop ::
  "element list \<Rightarrow> date option \<times> int option \<Rightarrow> exn + (date option \<times> int option)" where
  "publication_stmt_loop [] st = Inr st"
| "publication_stmt_loop (date_el # es) (publication_date, year) =
     (case parse_publication_date (py_or (attrib_get date_el ''when'') (el_text date_el)) of
        Inl e \<Rightarrow> Inl e
      | Inr (Some d) \<Rightarrow> Inr (Some d, Some (date_year d))
      | Inr None \<Rightarrow>
          (let year1 = (if truthy (el_text date_el) then extract_year (the (el_text date_el))
                        else year)
           in if truthy (el_text date_el) \<and> truthy_int year1 then Inr (None, year1)
              else
                (let when_attr = attrib_get date_el ''when'';
                     year2 = (if truthy when_attr then extract_year (the when_attr) else year1)
                 in if truthy when_attr \<and> truthy_int year2 then Inr (None, year2)
                    else publication_stmt_loop es (None, year2))))"

text \<open>
  \<^verbatim>\<open>
  for date_el in root.findall(".//tei:imprint//tei:date", namespaces=ns):
      publication_date = parse_publication_date(date_el.attrib.get("when") or date_el.text)
      if publication_date:
          year = publication_date.year
          break
  \<close>
\<close>

fun imprint_loop ::
  "element list \<Rightarrow> date option \<times> int option \<Rightarrow> exn + (date option \<times> int option)" where
  "imprint_loop [] st = Inr st"
| "imprint_loop (date_el # es) (publication_date, year) =
     (case parse_publication_date (py_or (attrib_get date_el ''when'') (el_text date_el)) of
        Inl e \<Rightarrow> Inl e
      | Inr (Some d) \<Rightarrow> Inr (Some d, Some (date_year d))
      | Inr None \<Rightarrow> imprint_loop es (None, year))"

text \<open>
  The authors of the source description and, when it names none, those of the title
  statement (lines 151 to 167):
  \<^verbatim>\<open>
  authors = []
  affiliations = []
  countries = []
  for author_el in root.findall(".//tei:sourceDesc//tei:author", namespaces=ns):
      ...
  if not authors:
      for author_el in root.findall(".//tei:titleStmt//tei:author", namespaces=ns):
          ...
  \<close>
\<close>

definition grobid_authors :: "element \<Rightarrow> string list \<times> string list \<times> string list" where
  "grobid_authors root =
     (let st = collect_authors (findall root [Desc (tei ''sourceDesc''), Desc (tei ''author'')])
                 ([], [], [])
      in if fst st = []
         then collect_authors (findall root [Desc (tei ''titleStmt''), Desc (tei ''author'')]) st
         else st)"

text \<open>The two searches for the date, one after the other (lines 175 to 197); the date nodes
  are those of \<^verbatim>\<open>.//tei:publicationStmt//tei:date\<close> and of
  \<^verbatim>\<open>.//tei:imprint//tei:date\<close>.\<close>

definition publication_stmt_dates :: "element \<Rightarrow> element list" where
  "publication_stmt_dates root = findall root [Desc (tei ''publicationStmt''), Desc (tei ''date'')]"

definition imprint_dates :: "element \<Rightarrow> element list" where
  "imprint_dates root = findall root [Desc (tei ''imprint''), Desc (tei ''date'')]"

definition extract_dates :: "element \<Rightarrow> exn + (date option \<times> int option)" where
  "extract_dates root =
     (case publication_stmt_loop (publication_stmt_dates root) (None, None) of
        Inl e \<Rightarrow> Inl e
      | Inr (publication_date, year) \<Rightarrow>
          if publication_date = None
          then imprint_loop (imprint_dates root) (publication_date, year)
          else Inr (publication_date, year))"

text \<open>The keyword terms, trimmed, the empty ones dropped (lines 169 to 173).\<close>

definition grobid_keywords :: "element \<Rightarrow> string list" where
  "grobid_keywords root =
     map (\<lambda>term. py_strip (the (el_text term)))
       (filter (\<lambda>term. truthy (el_text term) \<and> py_strip (the (el_text term)) \<noteq> [])
          (findall root [Desc (tei ''keywords''), Desc (tei ''term'')]))"

text \<open>The record built from a parsed response (lines 147 to 223).\<close>

definition grobid_record :: "element \<Rightarrow> exn + pydict" where
  "grobid_record root =
     (let title = findtext root [Desc (tei ''titleStmt''), Child (tei ''title'')];
          document_type = extract_document_type root;
          (authors, affiliations, countries) = grobid_authors root;
          keywords = grobid_keywords root
      in case extract_dates root of
           Inl e \<Rightarrow> Inl e
         | Inr (publication_date, year) \<Rightarrow>
             (let journal_title =
                    findtext root [Desc (tei ''monogr''), Child (tei ''title''), AttrEq ''level'' ''j''];
                  book_title0 =
                    findtext root [Desc (tei ''monogr''), Child (tei ''title''), AttrEq ''level'' ''m''];
                  book_title =
                    (if \<not> truthy journal_title \<and> \<not> truthy book_title0
                     then findtext root [Desc (tei ''monogr''), Child (tei ''title'')]
                     else book_title0);
                  publisher0 = findtext root [Desc (tei ''publicationStmt''), Child (tei ''publisher'')];
                  publisher =
                    (if \<not> truthy publisher0
                     then findtext root
                            [Desc (tei ''monogr''), Child (tei ''imprint''), Child (tei ''publisher'')]
                     else publisher0);
                  abstract = element_text (find root [Desc (tei ''profileDesc''), Child (tei ''abstract'')])
              in Inr [(''title'', str_val title),
                      (''document_type'', str_val document_type),
                      (''publication_date'', date_val publication_date),
                      (''journal_title'', str_val journal_title),
                      (''book_title'', str_val book_title),
                      (''publisher'', str_val publisher),
                      (''authors'', list_or_none authors),
                      (''affiliations'', list_or_none (sorted_set affiliations)),
                      (''countries'', list_or_none (sorted_set countries)),
                      (''abstract'', str_val abstract),
                      (''year'', int_val year),
                      (''keywords'', list_or_none keywords)]))"

text \<open>
  \<^verbatim>\<open>
  def extract_metadata_grobid(pdf_path, base_url):
      try:
          with pdf_path.open("rb") as handle:
              response = requests.post(...)
          response.raise_for_status()
      except requests.RequestException:
          return None
      try:
          root = ElementTree.fromstring(response.text)
      except ElementTree.ParseError:
          return None
      ...
  \<close>
\<close>

definition extract_metadata_grobid :: "post_outcome \<Rightarrow> exn + pydict option" where
  "extract_metadata_grobid outcome =
     (case outcome of
        CannotOpen \<Rightarrow> Inl OSError
      | RequestException \<Rightarrow> Inr None
      | Answered r \<Rightarrow>
          if raises_for_status r then Inr None
          else (case body r of
                  None \<Rightarrow> Inr None
                | Some root \<Rightarrow>
                    (case grobid_record root of Inl e \<Rightarrow> Inl e | Inr d \<Rightarrow> Inr (Some d))))"

section \<open>The heuristic text extractor\<close>

text \<open>
  \<^verbatim>\<open>
  def split_authors(authors_line):
      normalized = authors_line.replace(" and ", ",").replace(";", ",")
      parts = [part.strip() for part in normalized.split(",")]
      return [part for part in parts if part]
  \<close>
\<close>

definition split_authors :: "string \<Rightarrow> string list" where
  "split_authors authors_line =
     (let normalized = py_replace (py_replace authors_line '' and '' '','') '';'' '','';
          parts = map py_strip (py_split_on CHR '','' normalized)
      in filter (\<lambda>part. part \<noteq> []) parts)"

text \<open>
  \<^verbatim>\<open>
  def split_keywords(keywords_line):
      normalized = keywords_line.replace(";", ",")
      parts = [part.strip() for part in normalized.split(",")]
      return [part for part in parts if part]
  \<close>
\<close>

definition split_keywords :: "string \<Rightarrow> string list" where
  "split_keywords keywords_line =
     (let normalized = py_replace keywords_line '';'' '','';
          parts = map py_strip (py_split_on CHR '','' normalized)
      in filter (\<lambda>part. part \<noteq> []) parts)"

text \<open>
  \<^verbatim>\<open>
  def extract_keywords(text):
      match = re.search(r"(?:Keywords?|Index Terms?)\s*[:\-]\s*(.+)", text, flags=re.IGNORECASE)
      if not match:
          return []
      line = match.group(1).splitlines()[0]
      return split_keywords(line)
  \<close>
  Indexing an empty list raises \<^verbatim>\<open>IndexError\<close>.
\<close>

definition extract_keywords :: "string \<Rightarrow> exn + string list" where
  "extract_keywords t =
     (case re_search True re_keywords t of
        None \<Rightarrow> Inr []
      | Some m \<Rightarrow>
          (case py_splitlines (group1 t m) of
             [] \<Rightarrow> Inl IndexError
           | line # rest \<Rightarrow> Inr (split_keywords line)))"

text \<open>
  \<^verbatim>\<open>
  def extract_authors(lines):
      for line in lines[:5]:
          match = re.search(r"Authors?\s*[:\-]\s*(.+)", line, flags=re.IGNORECASE)
          if match:
              return split_authors(match.group(1))
      if len(lines) > 1 and len(lines[1]) <= 120:
          return split_authors(lines[1])
      return []
  \<close>
\<close>

fun first_author_label :: "string list \<Rightarrow> string option" where
  "first_author_label [] = None"
| "first_author_label (line # rest) =
     (case re_search True re_authors line of
        Some m \<Rightarrow> Some (group1 line m)
      | None \<Rightarrow> first_author_label rest)"

definition extract_authors :: "string list \<Rightarrow> string list" where
  "extract_authors lines =
     (case first_author_label (take 5 lines) of
        Some authors_line \<Rightarrow> split_authors authors_line
      | None \<Rightarrow>
          if 1 < length lines \<and> length (lines ! 1) \<le> 120 then split_authors (lines ! 1)
          else [])"

text \<open>
  \<^verbatim>\<open>
  def extract_title(lines):
      if not lines:
          return None
      return lines[0]
  \<close>
\<close>

definition extract_title :: "string list \<Rightarrow> string option" where
  "extract_title lines = (case lines of [] \<Rightarrow> None | l # rest \<Rightarrow> Some l)"

text \<open>
  \<^verbatim>\<open>
  def extract_abstract(text):
      match = re.search(
          r"\bAbstract\b\s*[:\-]?\s*(.+?)(?:\n\s*\n|\bIntroduction\b|\bKeywords\b)",
          text, flags=re.IGNORECASE | re.DOTALL)
      if not match:
          return None
      return normalize_whitespace(match.group(1))
  \<close>
\<close>

definition extract_abstract :: "string \<Rightarrow> string option" where
  "extract_abstract t =
     (case re_search True re_abstract t of
        None \<Rightarrow> None
      | Some m \<Rightarrow> normalize_whitespace (Some (group1 t m)))"

text \<open>\<^verbatim>\<open>text[:500].strip() if text else None\<close>\<close>

definition snippet :: "string \<Rightarrow> pyval" where
  "snippet t = (if t \<noteq> [] then PStr (py_strip (take 500 t)) else PNone)"

text \<open>
  \<^verbatim>\<open>
  def extract_metadata(text):
      lines = [line.strip() for line in text.splitlines() if line.strip()]
      title = extract_title(lines)
      authors = extract_authors(lines)
      year = extract_year(text)
      keywords = extract_keywords(text)
      abstract = extract_abstract(text)
      raw_text_snippet = text[:500].strip() if text else None
      return {...}
  \<close>
\<close>

definition nonblank_lines :: "string \<Rightarrow> string list" where
  "nonblank_lines t = map py_strip (filter (\<lambda>line. py_strip line \<noteq> []) (py_splitlines t))"

definition extract_metadata :: "string \<Rightarrow> exn + pydict" where
  "extract_metadata t =
     (let lines = nonblank_lines t;
          title = extract_title lines;
          authors = extract_authors lines;
          year = extract_year t
      in case extract_keywords t of
           Inl e \<Rightarrow> Inl e
         | Inr keywords \<Rightarrow>
             (let abstract = extract_abstract t;
                  raw_text_snippet = snippet t
              in Inr [(''title'', str_val title),
                      (''document_type'', PNone),
                      (''publication_date'', PNone),
                      (''journal_title'', PNone),
                      (''book_title'', PNone),
                      (''publisher'', PNone),
                      (''authors'', list_or_none authors),
                      (''affiliations'', PNone),
                      (''countries'', PNone),
                      (''abstract'', str_val abstract),
                      (''year'', int_val year),
                      (''keywords'', list_or_none keywords),
                      (''raw_text_snippet'', raw_text_snippet)]))"

section \<open>The text extractor\<close>

text \<open>
  What the PDF library can do with a file. Making the reader raises an exception or gives a
  reader; taking the reader's pages raises or gives the pages; extracting the text of a page
  raises or gives a string or nothing.
\<close>

type_synonym page = "exn + string option"

type_synonym reader = "exn + page list"

type_synonym pdf_source = "exn + reader"

text \<open>
  \<^verbatim>\<open>
  def extract_text_from_pdf(pdf_path, max_pages=2):
      try:
          reader = PdfReader(str(pdf_path))
      except PdfReadError:
          return ""
      text_chunks = []
      for page in reader.pages[:max_pages]:
          page_text = page.extract_text() or ""
          if page_text:
              text_chunks.append(page_text)
      return "\n".join(text_chunks)
  \<close>
\<close>

fun read_pages :: "page list \<Rightarrow> string list \<Rightarrow> exn + string list" where
  "read_pages [] text_chunks = Inr text_chunks"
| "read_pages (p # ps) text_chunks =
     (case p of
        Inl e \<Rightarrow> Inl e
      | Inr t \<Rightarrow>
          (let page_text = or_empty t
           in if page_text \<noteq> [] then read_pages ps (text_chunks @ [page_text])
              else read_pages ps text_chunks))"

definition extract_text_from_pdf :: "pdf_source \<Rightarrow> int \<Rightarrow> exn + string" where
  "extract_text_from_pdf src max_pages =
     (case src of
        Inl e \<Rightarrow> if e = PdfReadError then Inr [] else Inl e
      | Inr reader \<Rightarrow>
          (case reader of
             Inl e \<Rightarrow> Inl e
           | Inr pages \<Rightarrow>
               (case read_pages (py_slice_to pages max_pages) [] of
                  Inl e \<Rightarrow> Inl e
                | Inr text_chunks \<Rightarrow> Inr (py_join [char_of (10::nat)] text_chunks))))"

section \<open>The selection of the record in \<^verbatim>\<open>main\<close>\<close>

text \<open>
  \<^verbatim>\<open>
  def grobid_is_available(base_url):
      try:
          response = requests.get(f"{base_url}/api/isalive", timeout=2)
          return response.ok
      except requests.RequestException:
          return False
  \<close>
\<close>

datatype get_outcome = GetFailed | GetAnswered response

definition grobid_is_available :: "get_outcome \<Rightarrow> bool" where
  "grobid_is_available outcome =
     (case outcome of GetFailed \<Rightarrow> False | GetAnswered r \<Rightarrow> \<not> raises_for_status r)"

text \<open>
  \<^verbatim>\<open>
  use_grobid = False
  if not args.no_grobid and grobid_is_available(args.grobid_url):
      use_grobid = True
  \<close>
\<close>

definition use_grobid :: "bool \<Rightarrow> get_outcome \<Rightarrow> bool" where
  "use_grobid no_grobid outcome = (\<not> no_grobid \<and> grobid_is_available outcome)"

text \<open>\<^verbatim>\<open>not metadata\<close> on an optional dictionary: true of \<^verbatim>\<open>None\<close> and of the
  dictionary without keys.\<close>

definition not_metadata :: "pydict option \<Rightarrow> bool" where
  "not_metadata metadata = (case metadata of None \<Rightarrow> True | Some d \<Rightarrow> d = [])"

text \<open>
  The body of the loop of \<^verbatim>\<open>main\<close> up to the record that is written or printed:
  \<^verbatim>\<open>
  text = extract_text_from_pdf(pdf_path)
  metadata = None
  if use_grobid:
      metadata = extract_metadata_grobid(pdf_path, args.grobid_url)
  if not metadata:
      metadata = extract_metadata(text)
  metadata["raw_text_snippet"] = text[:500].strip() if text else None
  \<close>
  An exception raised on the way ends the run.
\<close>

definition select_metadata :: "pydict option \<Rightarrow> string \<Rightarrow> exn + pydict" where
  "select_metadata metadata t =
     (if not_metadata metadata then extract_metadata t else Inr (the metadata))"

definition process_document :: "bool \<Rightarrow> pdf_source \<Rightarrow> post_outcome \<Rightarrow> exn + pydict" where
  "process_document use_grobid_flag src outcome =
     (case extract_text_from_pdf src 2 of
        Inl e \<Rightarrow> Inl e
      | Inr t \<Rightarrow>
          (case (if use_grobid_flag then extract_metadata_grobid outcome else Inr None) of
             Inl e \<Rightarrow> Inl e
           | Inr metadata \<Rightarrow>
               (case select_metadata metadata t of
                  Inl e \<Rightarrow> Inl e
                | Inr d \<Rightarrow> Inr (dict_set d ''raw_text_snippet'' (snippet t)))))"

text \<open>The loop over the files of the batch: the records in the order of the files, or the
  first exception.\<close>

fun process_all :: "bool \<Rightarrow> (pdf_source \<times> post_outcome) list \<Rightarrow> exn + pydict list" where
  "process_all use_grobid_flag [] = Inr []"
| "process_all use_grobid_flag ((src, outcome) # docs) =
     (case process_document use_grobid_flag src outcome of
        Inl e \<Rightarrow> Inl e
      | Inr d \<Rightarrow>
          (case process_all use_grobid_flag docs of
             Inl e \<Rightarrow> Inl e
           | Inr ds \<Rightarrow> Inr (d # ds)))"

section \<open>Predicates used in the statements\<close>

text \<open>A string has a whitespace run when two adjacent characters are both whitespace.\<close>

fun has_ws_run :: "string \<Rightarrow> bool" where
  "has_ws_run (a # b # cs) = ((py_isspace a \<and> py_isspace b) \<or> has_ws_run (b # cs))"
| "has_ws_run cs = False"

text \<open>A field that holds a list is absent or holds a list that is not empty; a field that
  holds a string is absent or holds a string that is not empty.\<close>

definition list_or_absent :: "pyval option \<Rightarrow> bool" where
  "list_or_absent v =
     (case v of Some PNone \<Rightarrow> True | Some (PList xs) \<Rightarrow> xs \<noteq> [] | _ \<Rightarrow> False)"

definition text_or_absent :: "pyval option \<Rightarrow> bool" where
  "text_or_absent v =
     (case v of Some PNone \<Rightarrow> True | Some (PStr s) \<Rightarrow> s \<noteq> [] | _ \<Rightarrow> False)"

text \<open>An occurrence of \<open>old\<close> starts somewhere in the string.\<close>

fun occurs_in :: "string \<Rightarrow> string \<Rightarrow> bool" where
  "occurs_in old [] = startswith [] old"
| "occurs_in old (c # cs) = (startswith (c # cs) old \<or> occurs_in old cs)"

text \<open>The value of \<^verbatim>\<open>normalized\<close> in \<^verbatim>\<open>split_authors\<close> (line 234).\<close>

definition norm_authors :: "string \<Rightarrow> string" where
  "norm_authors l = py_replace (py_replace l '' and '' '','') '';'' '',''"

text \<open>A string starts with a year of the form 19xx or 20xx; a string contains one.\<close>

fun year_prefix :: "string \<Rightarrow> bool" where
  "year_prefix (a # b # c # d # rest) =
     (((a = CHR ''1'' \<and> b = CHR ''9'') \<or> (a = CHR ''2'' \<and> b = CHR ''0''))
      \<and> py_isdigit c \<and> py_isdigit d)"
| "year_prefix s = False"

fun has_year :: "string \<Rightarrow> bool" where
  "has_year [] = False"
| "has_year (c # cs) = (year_prefix (c # cs) \<or> has_year cs)"

text \<open>
  The date parser, worded as a search for tokens. A year token is four characters \<^verbatim>\<open>19dd\<close>
  or \<^verbatim>\<open>20dd\<close>; a year-month token is a year token followed by \<^verbatim>\<open>-dd\<close>; a full date token
  is a year-month token followed by \<^verbatim>\<open>-dd\<close>. Each function reads a token at the start of a
  string and gives the numbers that it denotes.
\<close>

definition century :: "char \<Rightarrow> char \<Rightarrow> bool" where
  "century a b = ((a = CHR ''1'' \<and> b = CHR ''9'') \<or> (a = CHR ''2'' \<and> b = CHR ''0''))"

fun year_token :: "string \<Rightarrow> int option" where
  "year_token (a # b # c # d # rest) =
     (if century a b \<and> py_isdigit c \<and> py_isdigit d
      then Some (1000 * digit_val a + 100 * digit_val b + 10 * digit_val c + digit_val d)
      else None)"
| "year_token s = None"

fun dash_number :: "string \<Rightarrow> int option" where
  "dash_number (h # c # d # rest) =
     (if h = CHR ''-'' \<and> py_isdigit c \<and> py_isdigit d
      then Some (10 * digit_val c + digit_val d) else None)"
| "dash_number s = None"

definition year_month_token :: "string \<Rightarrow> (int \<times> int) option" where
  "year_month_token s =
     (case year_token s of
        None \<Rightarrow> None
      | Some y \<Rightarrow> (case dash_number (drop 4 s) of None \<Rightarrow> None | Some m \<Rightarrow> Some (y, m)))"

definition full_date_token :: "string \<Rightarrow> (int \<times> int \<times> int) option" where
  "full_date_token s =
     (case year_month_token s of
        None \<Rightarrow> None
      | Some (y, m) \<Rightarrow> (case dash_number (drop 7 s) of None \<Rightarrow> None | Some d \<Rightarrow> Some (y, m, d)))"

text \<open>The \<open>n\<close> characters from position \<open>i\<close> stand alone: the character before them, if
  there is one, is not a word character, and neither is the character after them.\<close>

definition standalone :: "string \<Rightarrow> nat \<Rightarrow> nat \<Rightarrow> bool" where
  "standalone s i n =
     ((i = 0 \<or> \<not> py_isword (s ! (i - 1))) \<and> (length s \<le> i + n \<or> \<not> py_isword (s ! (i + n))))"

definition token_at :: "(string \<Rightarrow> 'a option) \<Rightarrow> nat \<Rightarrow> string \<Rightarrow> nat \<Rightarrow> 'a option" where
  "token_at tok n s i = (if standalone s i n then tok (drop i s) else None)"

fun first_some :: "(nat \<Rightarrow> 'a option) \<Rightarrow> nat list \<Rightarrow> 'a option" where
  "first_some f [] = None"
| "first_some f (i # is) = (case f i of Some x \<Rightarrow> Some x | None \<Rightarrow> first_some f is)"

text \<open>The leftmost token of \<open>n\<close> characters that stands alone in the string.\<close>

definition leftmost :: "(string \<Rightarrow> 'a option) \<Rightarrow> nat \<Rightarrow> string \<Rightarrow> 'a option" where
  "leftmost tok n s = first_some (token_at tok n s) [0..<length s]"

text \<open>The date of three numbers, when the month and the day exist in that year; the parser
  raises \<^verbatim>\<open>ValueError\<close> when they do not.\<close>

definition calendar_date :: "int \<Rightarrow> int \<Rightarrow> int \<Rightarrow> exn + date option" where
  "calendar_date y m d =
     (if 1 \<le> m \<and> m \<le> 12 \<and> 1 \<le> d \<and> d \<le> days_in_month y m
      then Inr (Some (Date y m d)) else Inl ValueError)"

text \<open>
  The three patterns in priority order: the leftmost full date that stands alone in the
  stripped input decides; if there is none, the leftmost year-month that stands alone, with
  day 1; if there is none, the leftmost year that stands alone, with month 1 and day 1; if
  there is none, or the input is absent or empty, no result.
\<close>

definition parse_publication_date_spec :: "string option \<Rightarrow> exn + date option" where
  "parse_publication_date_spec v =
     (case v of
        None \<Rightarrow> Inr None
      | Some x \<Rightarrow>
          if x = [] then Inr None
          else
            (case leftmost full_date_token 10 (py_strip x) of
               Some (y, m, d) \<Rightarrow> calendar_date y m d
             | None \<Rightarrow>
            (case leftmost year_month_token 7 (py_strip x) of
               Some (y, m) \<Rightarrow> calendar_date y m 1
             | None \<Rightarrow>
            (case leftmost year_token 4 (py_strip x) of
               Some y \<Rightarrow> Inr (Some (Date y 1 1))
             | None \<Rightarrow> Inr None))))"

text \<open>The string of a date node that is parsed as a date: its \<^verbatim>\<open>when\<close> attribute when
  that is present and not empty, else its text.\<close>

definition date_source :: "element \<Rightarrow> string option" where
  "date_source n = py_or (attrib_get n ''when'') (el_text n)"

text \<open>The bare year that the loop over the publication statement takes from a node that
  gives no date: the year in its text, else the year in its \<^verbatim>\<open>when\<close> attribute.\<close>

definition bare_year :: "element \<Rightarrow> int option" where
  "bare_year n =
     (if truthy (el_text n) \<and> truthy_int (extract_year (the (el_text n)))
      then extract_year (the (el_text n))
      else if truthy (attrib_get n ''when'') \<and> truthy_int (extract_year (the (attrib_get n ''when'')))
      then extract_year (the (attrib_get n ''when''))
      else None)"

definition yields_nothing :: "element \<Rightarrow> bool" where
  "yields_nothing n = (parse_publication_date (date_source n) = Inr None \<and> bare_year n = None)"

section \<open>Verified properties\<close>

subsection \<open>Whitespace normalization\<close>

lemma split_ws_acc_words:
  "x \<in> set (split_ws_acc s w) \<Longrightarrow> (\<forall>c\<in>set w. \<not> py_isspace c) \<Longrightarrow> x \<noteq> [] \<and> (\<forall>c\<in>set x. \<not> py_isspace c)"
proof (induction s arbitrary: w)
  case Nil
  then show ?case by (auto split: if_splits)
next
  case (Cons a s)
  show ?case
  proof (cases "py_isspace a")
    case True
    then have "x = w \<and> w \<noteq> [] \<or> x \<in> set (split_ws_acc s [])"
      using Cons.prems(1) by (auto split: if_splits)
    then show ?thesis using Cons.IH[of "[]"] Cons.prems(2) by auto
  next
    case False
    then have "x \<in> set (split_ws_acc s (w @ [a]))" using Cons.prems(1) by simp
    moreover have "\<forall>c\<in>set (w @ [a]). \<not> py_isspace c" using False Cons.prems(2) by simp
    ultimately show ?thesis using Cons.IH by blast
  qed
qed

lemma split_ws_acc_nospace:
  "\<forall>c\<in>set u. \<not> py_isspace c \<Longrightarrow> split_ws_acc (u @ rest) w = split_ws_acc rest (w @ u)"
  by (induction u arbitrary: w) auto

lemma split_ws_acc_join:
  assumes "\<forall>x\<in>set ws. x \<noteq> [] \<and> (\<forall>c\<in>set x. \<not> py_isspace c)" "ws \<noteq> []"
  shows "split_ws_acc (py_join '' '' ws) [] = ws"
  using assms
proof (induction "'' ''" ws rule: py_join.induct)
  case 1 then show ?case by simp
next
  case (2 x)
  then show ?case using split_ws_acc_nospace[of x "[]" "[]"] by simp
next
  case (3 x y ys)
  have sp: "py_isspace CHR '' ''" by (simp add: py_isspace_def code_def)
  have "split_ws_acc (x @ '' '' @ py_join '' '' (y # ys)) [] = split_ws_acc ('' '' @ py_join '' '' (y # ys)) x"
    using split_ws_acc_nospace[of x _ "[]"] "3.prems" by simp
  also have "\<dots> = x # split_ws_acc (py_join '' '' (y # ys)) []"
    using "3.prems" sp by simp
  finally show ?case using 3 by simp
qed

lemma split_ws_empty_iff: "split_ws_acc s w = [] \<longleftrightarrow> w = [] \<and> (\<forall>c\<in>set s. py_isspace c)"
  by (induction s arbitrary: w) auto

lemma py_strip_id:
  assumes "s \<noteq> []" "\<not> py_isspace (hd s)" "\<not> py_isspace (last s)"
  shows "py_strip s = s"
proof -
  have 1: "dropWhile py_isspace s = s"
    using assms by (simp add: dropWhile_eq_self_iff)
  have 2: "dropWhile py_isspace (rev s) = rev s"
    using assms by (simp add: dropWhile_eq_self_iff hd_rev)
  show ?thesis unfolding py_strip_def 1 2 by simp
qed

lemma join_hd_last:
  assumes "\<forall>x\<in>set ws. x \<noteq> [] \<and> (\<forall>c\<in>set x. \<not> py_isspace c)" "ws \<noteq> []"
  shows "py_join '' '' ws \<noteq> [] \<and> \<not> py_isspace (hd (py_join '' '' ws)) \<and> \<not> py_isspace (last (py_join '' '' ws))"
  using assms
  by (induction "'' ''" ws rule: py_join.induct) (auto simp: hd_append)

lemma normalize_None_iff:
  "normalize_whitespace (Some s) = None \<longleftrightarrow> (\<forall>c\<in>set s. py_isspace c)"
proof (cases "py_split s = []")
  case True
  then have all: "\<forall>c\<in>set s. py_isspace c"
    by (simp add: py_split_def split_ws_empty_iff)
  have "normalize_whitespace (Some s) = None"
    using True by (simp add: normalize_whitespace_def py_strip_def)
  then show ?thesis using all by simp
next
  case False
  have good: "\<forall>x\<in>set (py_split s). x \<noteq> [] \<and> (\<forall>c\<in>set x. \<not> py_isspace c)"
    unfolding py_split_def using split_ws_acc_words[of _ s "[]"] by simp
  from join_hd_last[OF good False] have "py_strip (py_join '' '' (py_split s)) \<noteq> []"
    using py_strip_id by metis
  moreover have "s \<noteq> []" "\<not> (\<forall>c\<in>set s. py_isspace c)"
    using False by (auto simp: py_split_def split_ws_empty_iff)
  ultimately show ?thesis by (simp add: normalize_whitespace_def Let_def)
qed

lemma normalize_Some:
  assumes "normalize_whitespace v = Some r"
  shows "\<exists>s. v = Some s \<and> py_split s \<noteq> [] \<and> r = py_join '' '' (py_split s)"
proof -
  from assms obtain s where v: "v = Some s" "s \<noteq> []"
    by (auto simp: normalize_whitespace_def split: option.splits if_splits)
  have ne: "py_split s \<noteq> []"
  proof
    assume "py_split s = []"
    then have "normalize_whitespace (Some s) = None"
      by (simp add: normalize_whitespace_def py_strip_def)
    then show False using assms v by simp
  qed
  have good: "\<forall>x\<in>set (py_split s). x \<noteq> [] \<and> (\<forall>c\<in>set x. \<not> py_isspace c)"
    unfolding py_split_def using split_ws_acc_words[of _ s "[]"] by simp
  from join_hd_last[OF good ne] have "py_strip (py_join '' '' (py_split s)) = py_join '' '' (py_split s)"
    using py_strip_id by metis
  then have "r = py_join '' '' (py_split s)"
    using assms v by (auto simp: normalize_whitespace_def Let_def split: if_splits)
  then show ?thesis using v ne by blast
qed

lemma split_ws_acc_content:
  "concat (split_ws_acc s w) = w @ filter (\<lambda>c. \<not> py_isspace c) s"
  by (induction s arbitrary: w) auto

lemma join_content:
  "\<forall>x\<in>set ws. \<forall>c\<in>set x. \<not> py_isspace c \<Longrightarrow>
   filter (\<lambda>c. \<not> py_isspace c) (py_join '' '' ws) = concat ws"
  by (induction "'' ''" ws rule: py_join.induct) (auto simp: py_isspace_def code_def)

lemma join_spaces:
  "\<forall>x\<in>set ws. \<forall>c\<in>set x. \<not> py_isspace c \<Longrightarrow>
   c \<in> set (py_join '' '' ws) \<Longrightarrow> py_isspace c \<Longrightarrow> c = CHR '' ''"
  by (induction "'' ''" ws rule: py_join.induct) auto

lemma has_ws_run_nospace: "\<not> py_isspace c \<Longrightarrow> has_ws_run (c # r) = has_ws_run r"
  by (cases r) auto

lemma has_ws_run_word: "\<forall>c\<in>set x. \<not> py_isspace c \<Longrightarrow> has_ws_run (x @ r) = has_ws_run r"
  by (induction x) (auto simp: has_ws_run_nospace)

lemma join_no_run:
  assumes "\<forall>x\<in>set ws. x \<noteq> [] \<and> (\<forall>c\<in>set x. \<not> py_isspace c)"
  shows "\<not> has_ws_run (py_join '' '' ws)"
  using assms
proof (induction "'' ''" ws rule: py_join.induct)
  case 1 then show ?case by simp
next
  case (2 x)
  then show ?case using has_ws_run_word[of x "[]"] by simp
next
  case (3 x y ys)
  obtain c r where j: "py_join '' '' (y # ys) = c # r" "\<not> py_isspace c"
    using "3.prems" by (cases y; cases ys) auto
  have "has_ws_run (py_join '' '' (x # y # ys)) = has_ws_run (CHR '' '' # py_join '' '' (y # ys))"
    using has_ws_run_word[of x] "3.prems" by simp
  also have "\<dots> = has_ws_run (py_join '' '' (y # ys))"
    using j by simp
  finally show ?case using 3 by simp
qed

text \<open>
  Claim C10. For every input string, \<^verbatim>\<open>normalize_whitespace\<close> returns either no value,
  exactly when the string is empty or all whitespace, or a non-empty string without leading
  or trailing whitespace in which every whitespace character is a single space standing
  alone, with the non-whitespace characters of the input unchanged and in order; it never
  returns the empty string, and applied to its own result it returns that result again.
\<close>

theorem normalize_whitespace_collapses:
  "normalize_whitespace None = None \<and>
   (normalize_whitespace (Some s) = None \<longleftrightarrow> (\<forall>c\<in>set s. py_isspace c)) \<and>
   normalize_whitespace (Some s) \<noteq> Some [] \<and>
   (\<forall>r. normalize_whitespace (Some s) = Some r \<longrightarrow>
      r \<noteq> [] \<and> \<not> py_isspace (hd r) \<and> \<not> py_isspace (last r) \<and> py_strip r = r \<and>
      \<not> has_ws_run r \<and> (\<forall>c\<in>set r. py_isspace c \<longrightarrow> c = CHR '' '') \<and>
      filter (\<lambda>c. \<not> py_isspace c) r = filter (\<lambda>c. \<not> py_isspace c) s \<and>
      r = py_join '' '' (py_split s) \<and>
      normalize_whitespace (Some r) = Some r)"
proof -
  have A: "normalize_whitespace None = None" by (simp add: normalize_whitespace_def)
  have B: "normalize_whitespace (Some s) = None \<longleftrightarrow> (\<forall>c\<in>set s. py_isspace c)"
    by (rule normalize_None_iff)
  have C: "normalize_whitespace (Some s) \<noteq> Some []"
    by (simp add: normalize_whitespace_def Let_def)
  have D: "r \<noteq> [] \<and> \<not> py_isspace (hd r) \<and> \<not> py_isspace (last r) \<and> py_strip r = r \<and>
      \<not> has_ws_run r \<and> (\<forall>c\<in>set r. py_isspace c \<longrightarrow> c = CHR '' '') \<and>
      filter (\<lambda>c. \<not> py_isspace c) r = filter (\<lambda>c. \<not> py_isspace c) s \<and>
      r = py_join '' '' (py_split s) \<and>
      normalize_whitespace (Some r) = Some r"
    if a: "normalize_whitespace (Some s) = Some r" for r
  proof -
    from normalize_Some[OF a] have ne: "py_split s \<noteq> []" and r: "r = py_join '' '' (py_split s)"
      by auto
    have good: "\<forall>x\<in>set (py_split s). x \<noteq> [] \<and> (\<forall>c\<in>set x. \<not> py_isspace c)"
      unfolding py_split_def using split_ws_acc_words[of _ s "[]"] by simp
    then have good': "\<forall>x\<in>set (py_split s). \<forall>c\<in>set x. \<not> py_isspace c" by blast
    have hl: "r \<noteq> []" "\<not> py_isspace (hd r)" "\<not> py_isspace (last r)"
      using join_hd_last[OF good ne] by (simp_all add: r)
    then have st: "py_strip r = r" by (rule py_strip_id)
    have run: "\<not> has_ws_run r" unfolding r by (rule join_no_run[OF good])
    have content: "filter (\<lambda>c. \<not> py_isspace c) r = filter (\<lambda>c. \<not> py_isspace c) s"
      unfolding r using join_content[OF good'] split_ws_acc_content[of s "[]"]
      by (simp add: py_split_def)
    have "py_split r = py_split s"
      unfolding r using split_ws_acc_join[OF good ne] by (simp add: py_split_def)
    then have idem: "normalize_whitespace (Some r) = Some r"
      using hl(1) st r by (simp add: normalize_whitespace_def Let_def)
    have single: "\<forall>c\<in>set r. py_isspace c \<longrightarrow> c = CHR '' ''"
      using join_spaces[OF good'] r by blast
    show ?thesis using hl st run content r idem single by blast
  qed
  show ?thesis using A B C D by blast
qed

theorem normalize_whitespace_collapses_witness:
  "normalize_whitespace (Some '' a  b '') = Some ''a b'' \<and>
   normalize_whitespace (Some ''a b'') = Some ''a b'' \<and>
   normalize_whitespace (Some ''  '') = None"
proof -
  have sp: "py_isspace CHR '' ''" "\<not> py_isspace CHR ''a''" "\<not> py_isspace CHR ''b''"
    by (simp_all add: py_isspace_def code_def)
  have 1: "normalize_whitespace (Some '' a  b '') = Some ''a b''"
    by (simp add: normalize_whitespace_def py_split_def py_strip_def sp)
  have 2: "normalize_whitespace (Some ''  '') = None"
    using normalize_whitespace_collapses[of "''  ''"] sp by simp
  have 3: "normalize_whitespace (Some ''a b'') = Some ''a b''"
    using normalize_whitespace_collapses[of "'' a  b ''"] 1 by blast
  show ?thesis using 1 2 3 by simp
qed

subsection \<open>Records and their fields\<close>

lemma dict_get_set: "dict_get (dict_set d k v) k' = (if k' = k then Some v else dict_get d k')"
  by (induction d) (auto simp: dict_get_def)

lemma sorted_set_props: "sorted (sorted_set xs) \<and> distinct (sorted_set xs) \<and> set (sorted_set xs) = set xs"
  by (simp add: sorted_set_def)

lemma sorted_set_empty: "sorted_set xs = [] \<longleftrightarrow> xs = []"
  using sorted_set_props[of xs] by (metis set_empty)

lemma grobid_record_fields:
  assumes "grobid_record root = Inr d"
  shows "\<exists>pd y.
    extract_dates root = Inr (pd, y) \<and>
    dict_get d ''publication_date'' = Some (date_val pd) \<and>
    dict_get d ''year'' = Some (int_val y) \<and>
    dict_get d ''authors'' = Some (list_or_none (fst (grobid_authors root))) \<and>
    dict_get d ''affiliations'' = Some (list_or_none (sorted_set (fst (snd (grobid_authors root))))) \<and>
    dict_get d ''countries'' = Some (list_or_none (sorted_set (snd (snd (grobid_authors root))))) \<and>
    dict_get d ''keywords'' = Some (list_or_none (grobid_keywords root)) \<and>
    dict_get d ''document_type'' = Some (str_val (extract_document_type root)) \<and>
    dict_get d ''abstract'' =
      Some (str_val (element_text (find root [Desc (tei ''profileDesc''), Child (tei ''abstract'')]))) \<and>
    dict_get d ''title'' = Some (str_val (findtext root [Desc (tei ''titleStmt''), Child (tei ''title'')])) \<and>
    dict_get d ''raw_text_snippet'' = None"
proof -
  from assms obtain pd y where e: "extract_dates root = Inr (pd, y)"
    by (cases "extract_dates root") (auto simp: grobid_record_def Let_def split: prod.splits)
  obtain a b c where g: "grobid_authors root = (a, b, c)" by (cases "grobid_authors root") auto
  have "d = [(''title'', str_val (findtext root [Desc (tei ''titleStmt''), Child (tei ''title'')])),
      (''document_type'', str_val (extract_document_type root)),
      (''publication_date'', date_val pd),
      (''journal_title'', the (map_of d ''journal_title'')),
      (''book_title'', the (map_of d ''book_title'')),
      (''publisher'', the (map_of d ''publisher'')),
      (''authors'', list_or_none a),
      (''affiliations'', list_or_none (sorted_set b)),
      (''countries'', list_or_none (sorted_set c)),
      (''abstract'', str_val (element_text (find root [Desc (tei ''profileDesc''), Child (tei ''abstract'')]))),
      (''year'', int_val y),
      (''keywords'', list_or_none (grobid_keywords root))]"
    using assms e g unfolding grobid_record_def Let_def
    by (simp split: prod.splits) auto
  then obtain jt bt pu where d: "d = [(''title'', str_val (findtext root [Desc (tei ''titleStmt''), Child (tei ''title'')])),
      (''document_type'', str_val (extract_document_type root)),
      (''publication_date'', date_val pd),
      (''journal_title'', jt),
      (''book_title'', bt),
      (''publisher'', pu),
      (''authors'', list_or_none a),
      (''affiliations'', list_or_none (sorted_set b)),
      (''countries'', list_or_none (sorted_set c)),
      (''abstract'', str_val (element_text (find root [Desc (tei ''profileDesc''), Child (tei ''abstract'')]))),
      (''year'', int_val y),
      (''keywords'', list_or_none (grobid_keywords root))]" by blast
  show ?thesis
    apply (rule exI[of _ pd], rule exI[of _ y])
    apply (simp only: e g fst_conv snd_conv)
    apply (subst d)+
    apply (simp add: dict_get_def)
    done
qed

lemma grobid_some_record:
  "extract_metadata_grobid outcome = Inr (Some d) \<Longrightarrow>
   \<exists>resp root. outcome = Answered resp \<and> \<not> raises_for_status resp \<and> body resp = Some root \<and>
      grobid_record root = Inr d"
  by (auto simp: extract_metadata_grobid_def split: post_outcome.splits if_splits option.splits sum.splits)

lemma grobid_none_iff:
  "extract_metadata_grobid outcome = Inr None \<longleftrightarrow>
     outcome = RequestException \<or>
     (\<exists>resp. outcome = Answered resp \<and> (raises_for_status resp \<or> body resp = None))"
  by (auto simp: extract_metadata_grobid_def split: post_outcome.splits if_splits option.splits sum.splits)

lemma extract_metadata_fields:
  assumes "extract_metadata t = Inr d"
  shows "dict_get d ''publication_date'' = Some PNone \<and>
    dict_get d ''document_type'' = Some PNone \<and>
    dict_get d ''journal_title'' = Some PNone \<and>
    dict_get d ''book_title'' = Some PNone \<and>
    dict_get d ''publisher'' = Some PNone \<and>
    dict_get d ''affiliations'' = Some PNone \<and>
    dict_get d ''countries'' = Some PNone \<and>
    dict_get d ''title'' = Some (str_val (extract_title (nonblank_lines t))) \<and>
    dict_get d ''authors'' = Some (list_or_none (extract_authors (nonblank_lines t))) \<and>
    dict_get d ''abstract'' = Some (str_val (extract_abstract t)) \<and>
    dict_get d ''year'' = Some (int_val (extract_year t)) \<and>
    (\<exists>ks. extract_keywords t = Inr ks \<and> dict_get d ''keywords'' = Some (list_or_none ks)) \<and>
    dict_get d ''raw_text_snippet'' = Some (snippet t)"
proof -
  from assms obtain ks where k: "extract_keywords t = Inr ks"
    by (cases "extract_keywords t") (auto simp: extract_metadata_def Let_def)
  have d: "d = [(''title'', str_val (extract_title (nonblank_lines t))),
                      (''document_type'', PNone),
                      (''publication_date'', PNone),
                      (''journal_title'', PNone),
                      (''book_title'', PNone),
                      (''publisher'', PNone),
                      (''authors'', list_or_none (extract_authors (nonblank_lines t))),
                      (''affiliations'', PNone),
                      (''countries'', PNone),
                      (''abstract'', str_val (extract_abstract t)),
                      (''year'', int_val (extract_year t)),
                      (''keywords'', list_or_none ks),
                      (''raw_text_snippet'', snippet t)]"
    using assms k unfolding extract_metadata_def Let_def by simp
  show ?thesis
    apply (simp only: k)
    apply (subst d)+
    apply (simp add: dict_get_def)
    done
qed

lemma process_document_cases:
  assumes "process_document flag src outcome = Inr d"
  shows "\<exists>t d0. extract_text_from_pdf src 2 = Inr t \<and>
     d = dict_set d0 ''raw_text_snippet'' (snippet t) \<and>
     ((flag \<and> extract_metadata_grobid outcome = Inr (Some d0)) \<or>
      ((\<not> flag \<or> extract_metadata_grobid outcome = Inr None) \<and> extract_metadata t = Inr d0))"
proof -
  from assms obtain t where t: "extract_text_from_pdf src 2 = Inr t"
    by (auto simp: process_document_def split: sum.splits)
  from assms t obtain r where r: "(if flag then extract_metadata_grobid outcome else Inr None) = Inr r"
    by (auto simp: process_document_def split: sum.splits)
  from assms t r obtain d0 where d0: "select_metadata r t = Inr d0"
    and d: "d = dict_set d0 ''raw_text_snippet'' (snippet t)"
    by (auto simp: process_document_def split: sum.splits if_splits)
  show ?thesis
  proof (cases r)
    case None
    then have "extract_metadata t = Inr d0" using d0 by (simp add: select_metadata_def not_metadata_def)
    then show ?thesis using t d r None by (auto split: if_splits)
  next
    case (Some x)
    then have f: "flag" "extract_metadata_grobid outcome = Inr (Some x)" using r by (auto split: if_splits)
    from grobid_some_record[OF f(2)] obtain root where "grobid_record root = Inr x" by blast
    from grobid_record_fields[OF this] have "x \<noteq> []" by (auto simp: dict_get_def)
    then have "d0 = x" using d0 Some by (simp add: select_metadata_def not_metadata_def)
    then show ?thesis using t d f by auto
  qed
qed

text \<open>The records of a batch are the records of its documents, one for each and in their
  order.\<close>

lemma process_all_each:
  "process_all flag docs = Inr ds \<Longrightarrow>
   length ds = length docs \<and>
   (\<forall>i<length docs. process_document flag (fst (docs ! i)) (snd (docs ! i)) = Inr (ds ! i))"
proof (induction docs arbitrary: ds)
  case Nil
  then show ?case by simp
next
  case (Cons doc docs)
  obtain src outcome where doc: "doc = (src, outcome)" by (cases doc) auto
  from Cons.prems obtain d ds' where
    d: "process_document flag src outcome = Inr d" and
    r: "process_all flag docs = Inr ds'" and ds: "ds = d # ds'"
    by (auto simp: doc split: sum.splits)
  from Cons.IH[OF r] have ih: "length ds' = length docs"
    "\<forall>i<length docs. process_document flag (fst (docs ! i)) (snd (docs ! i)) = Inr (ds' ! i)"
    by auto
  show ?case
  proof (intro conjI allI impI)
    show "length ds = length (doc # docs)" using ih(1) ds by simp
  next
    fix i assume "i < length (doc # docs)"
    then show "process_document flag (fst ((doc # docs) ! i)) (snd ((doc # docs) ! i)) = Inr (ds ! i)"
      using d ih(2) ds doc by (cases i) auto
  qed
qed

subsection \<open>The selection between the two extractors\<close>

lemma grobid_record_keys:
  "grobid_record root = Inr d \<Longrightarrow>
   map fst d = [''title'', ''document_type'', ''publication_date'', ''journal_title'',
     ''book_title'', ''publisher'', ''authors'', ''affiliations'', ''countries'', ''abstract'',
     ''year'', ''keywords'']"
  by (auto simp: grobid_record_def Let_def split: sum.splits prod.splits)

lemma grobid_some_nonempty:
  "extract_metadata_grobid outcome = Inr (Some d) \<Longrightarrow> d \<noteq> []"
  by (auto simp: extract_metadata_grobid_def split: post_outcome.splits if_splits option.splits sum.splits
      dest: grobid_record_keys)

text \<open>
  Claim C1. For a document of a batch in which the service flag is not disabled and the
  availability check succeeded, the branch \<^verbatim>\<open>if not metadata\<close> that calls the heuristic
  extractor is taken if and only if the structured-service extractor returned no result,
  which happens exactly on a request exception, a status that \<^verbatim>\<open>raise_for_status\<close>
  refuses, or a body that does not parse. A structured record is used as it is, whatever its
  fields, also when all of them are absent: the final record is that record with the snippet
  set, and otherwise the heuristic record with the snippet set.
\<close>

theorem heuristic_fallback_iff_no_result:
  assumes "use_grobid no_grobid avail"
    and "extract_text_from_pdf src 2 = Inr t"
    and "extract_metadata_grobid outcome = Inr r"
  shows "(not_metadata r \<longleftrightarrow> r = None) \<and>
     (r = None \<longleftrightarrow>
        outcome = RequestException \<or>
        (\<exists>resp. outcome = Answered resp \<and> (raises_for_status resp \<or> body resp = None))) \<and>
     process_document (use_grobid no_grobid avail) src outcome =
       (case r of
          None \<Rightarrow>
            (case extract_metadata t of
               Inl e \<Rightarrow> Inl e
             | Inr h \<Rightarrow> Inr (dict_set h ''raw_text_snippet'' (snippet t)))
        | Some d \<Rightarrow> Inr (dict_set d ''raw_text_snippet'' (snippet t)))"
proof -
  have a: "not_metadata r \<longleftrightarrow> r = None"
    using grobid_some_nonempty assms(3) by (cases r) (auto simp: not_metadata_def)
  have b: "r = None \<longleftrightarrow>
        outcome = RequestException \<or>
        (\<exists>resp. outcome = Answered resp \<and> (raises_for_status resp \<or> body resp = None))"
    using grobid_none_iff[of outcome] assms(3) by auto
  have c: "process_document (use_grobid no_grobid avail) src outcome =
       (case r of
          None \<Rightarrow>
            (case extract_metadata t of
               Inl e \<Rightarrow> Inl e
             | Inr h \<Rightarrow> Inr (dict_set h ''raw_text_snippet'' (snippet t)))
        | Some d \<Rightarrow> Inr (dict_set d ''raw_text_snippet'' (snippet t)))"
    using assms a by (cases r) (simp_all add: process_document_def select_metadata_def)
  show ?thesis using a b c by blast
qed

lemma c1_eval_text: "extract_text_from_pdf (Inr (Inr [Inr (Some ''Title'')])) 2 = Inr ''Title''"
  by code_simp

lemma c1_eval_avail: "use_grobid False (GetAnswered (Response 200 None))"
  by code_simp

lemma c1_eval_empty:
  "extract_metadata_grobid (Answered (Response 200 (Some (Element (tei ''TEI'') [] None [] None)))) =
   Inr (Some
       [(''title'', PNone), (''document_type'', PNone),
        (''publication_date'', PNone), (''journal_title'', PNone),
        (''book_title'', PNone), (''publisher'', PNone),
        (''authors'', PNone), (''affiliations'', PNone),
        (''countries'', PNone), (''abstract'', PNone), (''year'', PNone),
        (''keywords'', PNone)])"
  by code_simp

lemma c1_eval_failed: "extract_metadata_grobid (Answered (Response 503 None)) = Inr None"
  by code_simp

lemma c1_eval_heuristic:
  "extract_metadata ''Title'' =
   Inr [(''title'', PStr ''Title''), (''document_type'', PNone),
        (''publication_date'', PNone), (''journal_title'', PNone),
        (''book_title'', PNone), (''publisher'', PNone),
        (''authors'', PNone), (''affiliations'', PNone),
        (''countries'', PNone), (''abstract'', PNone), (''year'', PNone),
        (''keywords'', PNone), (''raw_text_snippet'', PStr ''Title'')]"
  by code_simp

lemma c1_eval_snippet: "snippet ''Title'' = PStr ''Title''"
  by code_simp

theorem heuristic_fallback_iff_no_result_witness:
  "use_grobid False (GetAnswered (Response 200 None)) \<and>
   process_document True (Inr (Inr [Inr (Some ''Title'')]))
     (Answered (Response 200 (Some (Element (tei ''TEI'') [] None [] None)))) =
   Inr [(''title'', PNone), (''document_type'', PNone),
        (''publication_date'', PNone), (''journal_title'', PNone),
        (''book_title'', PNone), (''publisher'', PNone),
        (''authors'', PNone), (''affiliations'', PNone),
        (''countries'', PNone), (''abstract'', PNone), (''year'', PNone),
        (''keywords'', PNone), (''raw_text_snippet'', PStr ''Title'')] \<and>
   process_document True (Inr (Inr [Inr (Some ''Title'')])) (Answered (Response 503 None)) =
   Inr [(''title'', PStr ''Title''), (''document_type'', PNone),
        (''publication_date'', PNone), (''journal_title'', PNone),
        (''book_title'', PNone), (''publisher'', PNone),
        (''authors'', PNone), (''affiliations'', PNone),
        (''countries'', PNone), (''abstract'', PNone), (''year'', PNone),
        (''keywords'', PNone), (''raw_text_snippet'', PStr ''Title'')]"
proof -
  have u: "use_grobid False (GetAnswered (Response 200 None)) = True"
    using c1_eval_avail by simp
  show ?thesis
    using heuristic_fallback_iff_no_result[OF c1_eval_avail c1_eval_text c1_eval_empty]
      heuristic_fallback_iff_no_result[OF c1_eval_avail c1_eval_text c1_eval_failed]
    by (simp add: u c1_eval_heuristic c1_eval_snippet)
qed

subsection \<open>The snippet overwrite\<close>

text \<open>
  Claim C8, as amended. For every processed document, whichever extractor produced the
  record, the field \<^verbatim>\<open>raw_text_snippet\<close> of the final record is the first 500 characters
  of the independently extracted text with the whitespace at both ends removed, or no value
  when that text is empty, and every other field is the one of the record before the
  overwrite.
\<close>

theorem snippet_overwrite_frame:
  assumes "process_document flag src outcome = Inr d"
  shows "\<exists>t r d0.
     extract_text_from_pdf src 2 = Inr t \<and>
     (if flag then extract_metadata_grobid outcome else Inr None) = Inr r \<and>
     select_metadata r t = Inr d0 \<and>
     d = dict_set d0 ''raw_text_snippet'' (if t = [] then PNone else PStr (py_strip (take 500 t))) \<and>
     dict_get d ''raw_text_snippet'' =
       Some (if t = [] then PNone else PStr (py_strip (take 500 t))) \<and>
     (\<forall>k. k \<noteq> ''raw_text_snippet'' \<longrightarrow> dict_get d k = dict_get d0 k)"
proof -
  from assms obtain t where t: "extract_text_from_pdf src 2 = Inr t"
    by (auto simp: process_document_def split: sum.splits)
  from assms t obtain r where r: "(if flag then extract_metadata_grobid outcome else Inr None) = Inr r"
    by (auto simp: process_document_def split: sum.splits)
  from assms t r obtain d0 where d0: "select_metadata r t = Inr d0"
    and d: "d = dict_set d0 ''raw_text_snippet'' (snippet t)"
    by (auto simp: process_document_def split: sum.splits if_splits)
  have s: "snippet t = (if t = [] then PNone else PStr (py_strip (take 500 t)))"
    by (simp add: snippet_def)
  show ?thesis using t r d0 d s dict_get_set[of d0 "''raw_text_snippet''"] by auto
qed

lemma c8_eval:
  "process_document True (Inr (Inr [Inr (Some '' Title'')]))
     (Answered (Response 200 (Some (Element (tei ''TEI'') [] None [] None)))) =
   Inr [(''title'', PNone), (''document_type'', PNone),
        (''publication_date'', PNone), (''journal_title'', PNone),
        (''book_title'', PNone), (''publisher'', PNone),
        (''authors'', PNone), (''affiliations'', PNone),
        (''countries'', PNone), (''abstract'', PNone), (''year'', PNone),
        (''keywords'', PNone), (''raw_text_snippet'', PStr ''Title'')]"
  by code_simp

lemma c8_eval_text: "extract_text_from_pdf (Inr (Inr [Inr (Some '' Title'')])) 2 = Inr '' Title''"
  by code_simp

lemma c8_eval_strip: "py_strip (take 500 '' Title'') = ''Title''"
  by code_simp

theorem snippet_overwrite_frame_witness:
  "process_document True (Inr (Inr [Inr (Some '' Title'')]))
     (Answered (Response 200 (Some (Element (tei ''TEI'') [] None [] None)))) =
   Inr [(''title'', PNone), (''document_type'', PNone),
        (''publication_date'', PNone), (''journal_title'', PNone),
        (''book_title'', PNone), (''publisher'', PNone),
        (''authors'', PNone), (''affiliations'', PNone),
        (''countries'', PNone), (''abstract'', PNone), (''year'', PNone),
        (''keywords'', PNone), (''raw_text_snippet'', PStr ''Title'')] \<and>
   dict_get [(''title'', PNone), (''document_type'', PNone),
        (''publication_date'', PNone), (''journal_title'', PNone),
        (''book_title'', PNone), (''publisher'', PNone),
        (''authors'', PNone), (''affiliations'', PNone),
        (''countries'', PNone), (''abstract'', PNone), (''year'', PNone),
        (''keywords'', PNone), (''raw_text_snippet'', PStr ''Title'')] ''raw_text_snippet'' =
     Some (PStr (py_strip (take 500 '' Title''))) \<and>
   py_strip (take 500 '' Title'') = ''Title''"
proof -
  from snippet_overwrite_frame[OF c8_eval] obtain t where
    t: "extract_text_from_pdf (Inr (Inr [Inr (Some '' Title'')])) 2 = Inr t"
    and s: "dict_get [(''title'', PNone), (''document_type'', PNone),
        (''publication_date'', PNone), (''journal_title'', PNone),
        (''book_title'', PNone), (''publisher'', PNone),
        (''authors'', PNone), (''affiliations'', PNone),
        (''countries'', PNone), (''abstract'', PNone), (''year'', PNone),
        (''keywords'', PNone), (''raw_text_snippet'', PStr ''Title'')] ''raw_text_snippet'' =
       Some (if t = [] then PNone else PStr (py_strip (take 500 t)))"
    by blast
  from t have "t = '' Title''" by (simp only: c8_eval_text sum.inject)
  with s show ?thesis using c8_eval c8_eval_strip by simp
qed

text \<open>The claim as stated, with exactly the first 500 characters, fails on a text that starts
  with a space: the stored snippet is the stripped text.\<close>

theorem snippet_not_first_500_counterexample:
  "extract_text_from_pdf (Inr (Inr [Inr (Some '' a'')])) 2 = Inr '' a'' \<and>
   process_document False (Inr (Inr [Inr (Some '' a'')])) RequestException =
     Inr [(''title'', PStr ''a''), (''document_type'', PNone), (''publication_date'', PNone),
          (''journal_title'', PNone), (''book_title'', PNone), (''publisher'', PNone),
          (''authors'', PNone), (''affiliations'', PNone), (''countries'', PNone),
          (''abstract'', PNone), (''year'', PNone), (''keywords'', PNone),
          (''raw_text_snippet'', PStr ''a'')] \<and>
   PStr ''a'' \<noteq> PStr (take 500 '' a'')"
  by code_simp

subsection \<open>The text extractor\<close>

lemma read_pages_ok:
  "\<forall>p\<in>set ps. isl p = False \<Longrightarrow>
   read_pages ps acc = Inr (acc @ filter (\<lambda>x. x \<noteq> []) (map (\<lambda>p. or_empty (projr p)) ps))"
proof (induction ps arbitrary: acc)
  case Nil
  then show ?case by simp
next
  case (Cons p ps)
  then obtain x where p: "p = Inr x" by (cases p) auto
  show ?case using Cons p by (simp add: Let_def)
qed

text \<open>
  Claim C2, as amended. For every page limit, the text extractor returns the empty string
  when making the reader raises the library's read error, and when the reader is made and
  the text of each of the first pages is extracted without an exception it returns a string:
  the texts of those pages that are not empty, joined by newlines.
\<close>

theorem text_extractor_degrades_on_read_error:
  "extract_text_from_pdf (Inl PdfReadError) max_pages = Inr [] \<and>
   ((\<forall>p\<in>set (py_slice_to pages max_pages). \<not> isl p) \<longrightarrow>
      extract_text_from_pdf (Inr (Inr pages)) max_pages =
        Inr (py_join [char_of (10::nat)]
              (filter (\<lambda>x. x \<noteq> []) (map (\<lambda>p. or_empty (projr p)) (py_slice_to pages max_pages)))))"
  using read_pages_ok[of "py_slice_to pages max_pages" "[]"]
  by (auto simp: extract_text_from_pdf_def)

lemma c2_eval: "py_slice_to [Inr (Some ''one''), Inr None, Inr (Some ''three'') :: page] 2 = [Inr (Some ''one''), Inr None]"
  by code_simp

theorem text_extractor_degrades_on_read_error_witness:
  "extract_text_from_pdf (Inl PdfReadError) 2 = Inr [] \<and>
   extract_text_from_pdf (Inr (Inr [Inr (Some ''one''), Inr None, Inr (Some ''three'')])) 2 = Inr ''one''"
  using text_extractor_degrades_on_read_error[of 2 "[Inr (Some ''one''), Inr None, Inr (Some ''three'')]"]
  by (simp add: c2_eval or_empty_def)

text \<open>The claim as stated fails: an exception other than the read error raised while the
  reader is made (a file that does not exist raises an \<^verbatim>\<open>OSError\<close>), and an exception
  raised while the text of a page is extracted, are not caught.\<close>

theorem text_extractor_raises_counterexample:
  "extract_text_from_pdf (Inl OSError) 2 = Inl OSError \<and>
   extract_text_from_pdf (Inr (Inr [Inr (Some ''page one''), Inl OtherError])) 2 = Inl OtherError"
  by code_simp

subsection \<open>Affiliations and countries\<close>

text \<open>
  Claim C9. In every record of the structured-service extractor, the fields
  \<^verbatim>\<open>affiliations\<close> and \<^verbatim>\<open>countries\<close> are absent when nothing was collected, and
  otherwise hold the collected values sorted and without duplicates: the stored list is
  ascending, has no repeated element, and has exactly the collected values as elements.
\<close>

theorem affiliations_countries_sorted_distinct:
  assumes "extract_metadata_grobid outcome = Inr (Some d)"
  shows "\<exists>resp root authors affiliations countries.
     outcome = Answered resp \<and> body resp = Some root \<and>
     grobid_authors root = (authors, affiliations, countries) \<and>
     dict_get d ''affiliations'' =
       Some (if affiliations = [] then PNone else PList (sorted_set affiliations)) \<and>
     dict_get d ''countries'' =
       Some (if countries = [] then PNone else PList (sorted_set countries)) \<and>
     sorted (sorted_set affiliations) \<and> distinct (sorted_set affiliations) \<and>
     set (sorted_set affiliations) = set affiliations \<and>
     sorted (sorted_set countries) \<and> distinct (sorted_set countries) \<and>
     set (sorted_set countries) = set countries"
proof -
  from grobid_some_record[OF assms] obtain resp root where
    o: "outcome = Answered resp" "body resp = Some root" and g: "grobid_record root = Inr d"
    by blast
  obtain authors affiliations countries where
    ga: "grobid_authors root = (authors, affiliations, countries)"
    by (cases "grobid_authors root") auto
  from grobid_record_fields[OF g] ga
  have f: "dict_get d ''affiliations'' =
       Some (if affiliations = [] then PNone else PList (sorted_set affiliations))"
    "dict_get d ''countries'' =
       Some (if countries = [] then PNone else PList (sorted_set countries))"
    by (auto simp: list_or_none_def sorted_set_empty)
  show ?thesis
    using o ga f sorted_set_props[of affiliations] sorted_set_props[of countries] by blast
qed

lemma c9_eval:
  "extract_metadata_grobid (Answered (Response 200 (Some
     (Element (tei ''TEI'') [] None
        [Element (tei ''sourceDesc'') [] None
           [Element (tei ''author'') [] None
              [Element (tei ''affiliation'') [] None [Element (tei ''orgName'') [] (Some ''MIT'') [] None] None] None,
            Element (tei ''author'') [] None
              [Element (tei ''affiliation'') [] None [Element (tei ''orgName'') [] (Some ''MIT'') [] None] None,
               Element (tei ''affiliation'') [] None [Element (tei ''orgName'') [] (Some ''Stanford'') [] None] None] None]
           None] None)))) =
   Inr (Some
       [(''title'', PNone), (''document_type'', PNone),
        (''publication_date'', PNone), (''journal_title'', PNone),
        (''book_title'', PNone), (''publisher'', PNone),
        (''authors'', PNone), (''affiliations'', PList [''MIT'', ''Stanford'']),
        (''countries'', PNone), (''abstract'', PNone), (''year'', PNone),
        (''keywords'', PNone)])"
  by code_simp

lemma c9_eval_authors:
  "grobid_authors
     (Element (tei ''TEI'') [] None
        [Element (tei ''sourceDesc'') [] None
           [Element (tei ''author'') [] None
              [Element (tei ''affiliation'') [] None [Element (tei ''orgName'') [] (Some ''MIT'') [] None] None] None,
            Element (tei ''author'') [] None
              [Element (tei ''affiliation'') [] None [Element (tei ''orgName'') [] (Some ''MIT'') [] None] None,
               Element (tei ''affiliation'') [] None [Element (tei ''orgName'') [] (Some ''Stanford'') [] None] None] None]
           None] None) = ([], [''MIT'', ''MIT'', ''Stanford''], [])"
  by code_simp

theorem affiliations_countries_sorted_distinct_witness:
  "grobid_authors
     (Element (tei ''TEI'') [] None
        [Element (tei ''sourceDesc'') [] None
           [Element (tei ''author'') [] None
              [Element (tei ''affiliation'') [] None [Element (tei ''orgName'') [] (Some ''MIT'') [] None] None] None,
            Element (tei ''author'') [] None
              [Element (tei ''affiliation'') [] None [Element (tei ''orgName'') [] (Some ''MIT'') [] None] None,
               Element (tei ''affiliation'') [] None [Element (tei ''orgName'') [] (Some ''Stanford'') [] None] None] None]
           None] None) = ([], [''MIT'', ''MIT'', ''Stanford''], []) \<and>
   dict_get [(''title'', PNone), (''document_type'', PNone),
        (''publication_date'', PNone), (''journal_title'', PNone),
        (''book_title'', PNone), (''publisher'', PNone),
        (''authors'', PNone), (''affiliations'', PList [''MIT'', ''Stanford'']),
        (''countries'', PNone), (''abstract'', PNone), (''year'', PNone),
        (''keywords'', PNone)] ''affiliations'' = Some (PList (sorted_set [''MIT'', ''MIT'', ''Stanford''])) \<and>
   sorted_set [''MIT'', ''MIT'', ''Stanford''] = [''MIT'', ''Stanford''] \<and>
   sorted (sorted_set [''MIT'', ''MIT'', ''Stanford'']) \<and>
   distinct (sorted_set [''MIT'', ''MIT'', ''Stanford''])"
proof -
  from affiliations_countries_sorted_distinct[OF c9_eval]
  obtain resp root authors affiliations countries where
    o: "Answered (Response 200 (Some
     (Element (tei ''TEI'') [] None
        [Element (tei ''sourceDesc'') [] None
           [Element (tei ''author'') [] None
              [Element (tei ''affiliation'') [] None [Element (tei ''orgName'') [] (Some ''MIT'') [] None] None] None,
            Element (tei ''author'') [] None
              [Element (tei ''affiliation'') [] None [Element (tei ''orgName'') [] (Some ''MIT'') [] None] None,
               Element (tei ''affiliation'') [] None [Element (tei ''orgName'') [] (Some ''Stanford'') [] None] None] None]
           None] None))) = Answered resp" "body resp = Some root"
    and g: "grobid_authors root = (authors, affiliations, countries)"
    and f: "dict_get [(''title'', PNone), (''document_type'', PNone),
        (''publication_date'', PNone), (''journal_title'', PNone),
        (''book_title'', PNone), (''publisher'', PNone),
        (''authors'', PNone), (''affiliations'', PList [''MIT'', ''Stanford'']),
        (''countries'', PNone), (''abstract'', PNone), (''year'', PNone),
        (''keywords'', PNone)] ''affiliations'' =
       Some (if affiliations = [] then PNone else PList (sorted_set affiliations))"
    and s: "sorted (sorted_set affiliations)" "distinct (sorted_set affiliations)"
    by blast
  from o have "root = Element (tei ''TEI'') [] None
        [Element (tei ''sourceDesc'') [] None
           [Element (tei ''author'') [] None
              [Element (tei ''affiliation'') [] None [Element (tei ''orgName'') [] (Some ''MIT'') [] None] None] None,
            Element (tei ''author'') [] None
              [Element (tei ''affiliation'') [] None [Element (tei ''orgName'') [] (Some ''MIT'') [] None] None,
               Element (tei ''affiliation'') [] None [Element (tei ''orgName'') [] (Some ''Stanford'') [] None] None] None]
           None] None"
    by auto
  with g have a: "affiliations = [''MIT'', ''MIT'', ''Stanford'']"
    by (simp only: c9_eval_authors prod.inject)
  have e: "sorted_set [''MIT'', ''MIT'', ''Stanford''] = [''MIT'', ''Stanford'']"
    by code_simp
  show ?thesis
    using f s a e c9_eval_authors by simp
qed

subsection \<open>Year and publication date\<close>

lemma publication_stmt_loop_consistent:
  "publication_stmt_loop es (None, y0) = Inr (Some d, y) \<Longrightarrow> y = Some (date_year d)"
proof (induction es arbitrary: y0)
  case Nil
  then show ?case by simp
next
  case (Cons e es)
  then show ?case
    by (auto simp: Let_def split: sum.splits option.splits if_splits)
qed

lemma imprint_loop_consistent:
  "imprint_loop es (None, y0) = Inr (Some d, y) \<Longrightarrow> y = Some (date_year d)"
proof (induction es arbitrary: y0)
  case Nil
  then show ?case by simp
next
  case (Cons e es)
  then show ?case
    by (auto simp: Let_def split: sum.splits option.splits if_splits)
qed

lemma extract_dates_consistent:
  assumes "extract_dates root = Inr (Some d, y)"
  shows "y = Some (date_year d)"
proof (cases "publication_stmt_loop (publication_stmt_dates root) (None, None)")
  case (Inl e)
  then show ?thesis using assms by (simp add: extract_dates_def)
next
  case (Inr st)
  obtain pd y1 where st: "st = (pd, y1)" by (cases st) auto
  show ?thesis
  proof (cases pd)
    case None
    then show ?thesis
      using assms Inr st imprint_loop_consistent by (simp add: extract_dates_def)
  next
    case (Some d')
    then show ?thesis
      using assms Inr st publication_stmt_loop_consistent by (auto simp: extract_dates_def)
  qed
qed

text \<open>
  Claim C7. In every record of the structured-service extractor, of the heuristic extractor
  and of the loop of \<^verbatim>\<open>main\<close>, when \<^verbatim>\<open>year\<close> and \<^verbatim>\<open>publication_date\<close> are both
  set, the year is the year of the publication date.
\<close>

theorem year_matches_publication_date:
  "(extract_metadata_grobid outcome = Inr (Some d) \<or> extract_metadata t = Inr d \<or>
    process_document flag src outcome = Inr d) \<longrightarrow>
   dict_get d ''year'' = Some (PInt y) \<longrightarrow> dict_get d ''publication_date'' = Some (PDate pd) \<longrightarrow>
   y = date_year pd"
proof (intro impI)
  assume a: "extract_metadata_grobid outcome = Inr (Some d) \<or> extract_metadata t = Inr d \<or>
    process_document flag src outcome = Inr d"
    and y: "dict_get d ''year'' = Some (PInt y)"
    and p: "dict_get d ''publication_date'' = Some (PDate pd)"
  have G: "y = date_year pd"
    if g: "extract_metadata_grobid outcome' = Inr (Some d')"
      and y': "dict_get d' ''year'' = Some (PInt y)"
      and p': "dict_get d' ''publication_date'' = Some (PDate pd)" for d' outcome'
  proof -
    from grobid_some_record[OF g] obtain root where "grobid_record root = Inr d'" by blast
    from grobid_record_fields[OF this] obtain pd0 y0 where
      e: "extract_dates root = Inr (pd0, y0)"
      and f: "dict_get d' ''publication_date'' = Some (date_val pd0)"
        "dict_get d' ''year'' = Some (int_val y0)"
      by blast
    from f p' have "pd0 = Some pd" by (cases pd0) (auto simp: date_val_def)
    moreover from f y' have "y0 = Some y" by (cases y0) (auto simp: int_val_def)
    ultimately show ?thesis using extract_dates_consistent e by auto
  qed
  have H: False
    if h: "extract_metadata t' = Inr d'"
      and p': "dict_get d' ''publication_date'' = Some (PDate pd)" for d' t'
    using extract_metadata_fields[OF h] p' by simp
  from a show "y = date_year pd"
  proof (elim disjE)
    assume "extract_metadata_grobid outcome = Inr (Some d)"
    then show ?thesis using G y p by blast
  next
    assume "extract_metadata t = Inr d"
    then show ?thesis using H p by blast
  next
    assume "process_document flag src outcome = Inr d"
    from process_document_cases[OF this] obtain t' d0 where
      d: "d = dict_set d0 ''raw_text_snippet'' (snippet t')"
      and c: "extract_metadata_grobid outcome = Inr (Some d0) \<or> extract_metadata t' = Inr d0"
      by blast
    have y0: "dict_get d0 ''year'' = Some (PInt y)" using y d by (simp add: dict_get_set)
    have p0: "dict_get d0 ''publication_date'' = Some (PDate pd)" using p d by (simp add: dict_get_set)
    from c show ?thesis using G[OF _ y0 p0] H[OF _ p0] by blast
  qed
qed

lemma c7_eval:
  "extract_metadata_grobid (Answered (Response 200 (Some
     (Element (tei ''TEI'') [] None
        [Element (tei ''publicationStmt'') [] None
           [Element (tei ''date'') [(''when'', ''n/a'')] (Some ''2020'') [] None] None,
         Element (tei ''imprint'') [] None
           [Element (tei ''date'') [(''when'', ''2021-05-06'')] None [] None] None] None)))) =
   Inr (Some
       [(''title'', PNone), (''document_type'', PNone),
        (''publication_date'', PDate (Date 2021 5 6)), (''journal_title'', PNone),
        (''book_title'', PNone), (''publisher'', PNone),
        (''authors'', PNone), (''affiliations'', PNone),
        (''countries'', PNone), (''abstract'', PNone), (''year'', PInt 2021),
        (''keywords'', PNone)])"
  by code_simp

lemma c7_eval_loop:
  "publication_stmt_loop [Element (tei ''date'') [(''when'', ''n/a'')] (Some ''2020'') [] None] (None, None) =
     Inr (None, Some 2020)"
  by code_simp

lemma c7_eval_get:
  "dict_get [(''title'', PNone), (''document_type'', PNone),
        (''publication_date'', PDate (Date 2021 5 6)), (''journal_title'', PNone),
        (''book_title'', PNone), (''publisher'', PNone),
        (''authors'', PNone), (''affiliations'', PNone),
        (''countries'', PNone), (''abstract'', PNone), (''year'', PInt 2021),
        (''keywords'', PNone)] ''year'' = Some (PInt 2021) \<and>
   dict_get [(''title'', PNone), (''document_type'', PNone),
        (''publication_date'', PDate (Date 2021 5 6)), (''journal_title'', PNone),
        (''book_title'', PNone), (''publisher'', PNone),
        (''authors'', PNone), (''affiliations'', PNone),
        (''countries'', PNone), (''abstract'', PNone), (''year'', PInt 2021),
        (''keywords'', PNone)] ''publication_date'' = Some (PDate (Date 2021 5 6))"
  by code_simp

theorem year_matches_publication_date_witness:
  "publication_stmt_loop [Element (tei ''date'') [(''when'', ''n/a'')] (Some ''2020'') [] None] (None, None) =
     Inr (None, Some 2020) \<and>
   extract_metadata_grobid (Answered (Response 200 (Some
     (Element (tei ''TEI'') [] None
        [Element (tei ''publicationStmt'') [] None
           [Element (tei ''date'') [(''when'', ''n/a'')] (Some ''2020'') [] None] None,
         Element (tei ''imprint'') [] None
           [Element (tei ''date'') [(''when'', ''2021-05-06'')] None [] None] None] None)))) =
   Inr (Some
       [(''title'', PNone), (''document_type'', PNone),
        (''publication_date'', PDate (Date 2021 5 6)), (''journal_title'', PNone),
        (''book_title'', PNone), (''publisher'', PNone),
        (''authors'', PNone), (''affiliations'', PNone),
        (''countries'', PNone), (''abstract'', PNone), (''year'', PInt 2021),
        (''keywords'', PNone)]) \<and>
   (2021 :: int) = date_year (Date 2021 5 6)"
  using year_matches_publication_date[of
      "Answered (Response 200 (Some
     (Element (tei ''TEI'') [] None
        [Element (tei ''publicationStmt'') [] None
           [Element (tei ''date'') [(''when'', ''n/a'')] (Some ''2020'') [] None] None,
         Element (tei ''imprint'') [] None
           [Element (tei ''date'') [(''when'', ''2021-05-06'')] None [] None] None] None)))"
      "[(''title'', PNone), (''document_type'', PNone),
        (''publication_date'', PDate (Date 2021 5 6)), (''journal_title'', PNone),
        (''book_title'', PNone), (''publisher'', PNone),
        (''authors'', PNone), (''affiliations'', PNone),
        (''countries'', PNone), (''abstract'', PNone), (''year'', PInt 2021),
        (''keywords'', PNone)]" "[]" False "Inl OSError" 2021 "Date 2021 5 6"]
    c7_eval c7_eval_loop c7_eval_get
  by blast

subsection \<open>Splitting the author line\<close>

lemma last_dropWhile: "dropWhile P xs \<noteq> [] \<Longrightarrow> last (dropWhile P xs) = last xs"
  by (induction xs) (auto split: if_splits)

lemma strip_hd_last:
  assumes "py_strip s \<noteq> []"
  shows "\<not> py_isspace (hd (py_strip s)) \<and> \<not> py_isspace (last (py_strip s))"
proof -
  let ?z = "dropWhile py_isspace s"
  let ?w = "dropWhile py_isspace (rev ?z)"
  have w: "?w \<noteq> []" using assms by (simp add: py_strip_def)
  have z: "?z \<noteq> []"
  proof
    assume a: "?z = []"
    have "?w = dropWhile py_isspace (rev [])" by (simp only: a)
    then have "?w = []" by simp
    with w show False by blast
  qed
  have 1: "\<not> py_isspace (hd ?w)" using w by (rule hd_dropWhile)
  have 2: "\<not> py_isspace (hd ?z)" using z by (rule hd_dropWhile)
  have "last ?w = last (rev ?z)" using w by (rule last_dropWhile)
  also have "\<dots> = hd ?z" by (rule last_rev)
  finally have 3: "\<not> py_isspace (last ?w)" using 2 by simp
  have "hd (py_strip s) = last ?w" "last (py_strip s) = hd ?w"
    unfolding py_strip_def by (rule hd_rev, rule last_rev)
  then show ?thesis using 1 3 by simp
qed

lemma strip_idem: "py_strip (py_strip s) = py_strip s"
proof (cases "py_strip s = []")
  case True
  have "py_strip [] = []" by (simp add: py_strip_def)
  then show ?thesis using True by simp
next
  case False
  then show ?thesis using strip_hd_last[OF False] py_strip_id by blast
qed

lemma set_strip: "set (py_strip s) \<subseteq> set s"
proof -
  have "set (dropWhile py_isspace (rev (dropWhile py_isspace s))) \<subseteq> set (rev (dropWhile py_isspace s))"
    by (meson set_dropWhileD subsetI)
  moreover have "set (dropWhile py_isspace s) \<subseteq> set s"
    by (meson set_dropWhileD subsetI)
  ultimately show ?thesis by (auto simp: py_strip_def)
qed

lemma split_on_acc_parts:
  "x \<in> set (split_on_acc d s cur) \<Longrightarrow> d \<notin> set cur \<Longrightarrow> d \<notin> set x \<and> set x \<subseteq> set cur \<union> set s"
proof (induction s arbitrary: cur)
  case Nil
  then show ?case by simp
next
  case (Cons c s)
  show ?case
  proof (cases "c = d")
    case True
    then have "x = cur \<or> x \<in> set (split_on_acc d s [])" using Cons.prems(1) by simp
    then show ?thesis using Cons.IH[of "[]"] Cons.prems(2) by auto
  next
    case False
    then have "x \<in> set (split_on_acc d s (cur @ [c]))" using Cons.prems(1) by simp
    moreover have "d \<notin> set (cur @ [c])" using False Cons.prems(2) by simp
    ultimately show ?thesis using Cons.IH[of "cur @ [c]"] by auto
  qed
qed

lemma replace_single:
  "replace_aux [c] new 0 s = concat (map (\<lambda>x. if x = c then new else [x]) s)"
  by (induction s) auto

lemma split_authors_parts:
  assumes "p \<in> set (split_authors l)"
  shows "p \<noteq> [] \<and> py_strip p = p \<and> CHR '','' \<notin> set p \<and> CHR '';'' \<notin> set p"
proof -
  let ?n = "py_replace (py_replace l '' and '' '','') '';'' '',''"
  from assms obtain x where x: "x \<in> set (py_split_on CHR '','' ?n)" and p: "p = py_strip x" "p \<noteq> []"
    by (auto simp: split_authors_def Let_def)
  have n: "CHR '';'' \<notin> set ?n"
    by (auto simp: py_replace_def replace_single split: if_splits)
  from split_on_acc_parts[of x "CHR '',''" ?n "[]"] x
  have "CHR '','' \<notin> set x" "set x \<subseteq> set ?n" by (auto simp: py_split_on_def)
  then have "CHR '','' \<notin> set p" "CHR '';'' \<notin> set p" using set_strip[of x] n p(1) by auto
  then show ?thesis using p strip_idem by simp
qed

lemma replace_none:
  "\<not> occurs_in old s \<Longrightarrow> replace_aux old new 0 s = s"
  by (induction s) auto

lemma occurs_single: "occurs_in [c] s \<longleftrightarrow> c \<in> set s"
  by (induction s) auto

lemma split_on_acc_none: "d \<notin> set s \<Longrightarrow> split_on_acc d s cur = [cur @ s]"
  by (induction s arbitrary: cur) auto

lemma split_authors_no_separator:
  assumes "\<not> occurs_in '' and '' l" "CHR '','' \<notin> set l" "CHR '';'' \<notin> set l"
  shows "split_authors l = (if py_strip l = [] then [] else [py_strip l])"
proof -
  have 1: "py_replace l '' and '' '','' = l" using assms(1) by (simp add: py_replace_def replace_none)
  have 2: "py_replace l '';'' '','' = l"
    using assms(3) replace_none[of "'';''" l] by (simp add: py_replace_def occurs_single)
  show ?thesis using assms(2) by (simp add: split_authors_def 1 2 py_split_on_def split_on_acc_none)
qed

lemma startswith_sep: "c \<notin> set old \<Longrightarrow> startswith (a @ c # b) old = startswith a old"
proof (induction a arbitrary: old)
  case Nil
  then show ?case by (cases old) auto
next
  case (Cons x xs)
  then show ?case by (cases old) auto
qed

lemma startswith_length: "startswith a old \<Longrightarrow> length old \<le> length a"
proof (induction a arbitrary: old)
  case Nil
  then show ?case by (cases old) auto
next
  case (Cons x xs)
  then show ?case by (cases old) auto
qed

lemma replace_aux_sep:
  "c \<notin> set old \<Longrightarrow> old \<noteq> [] \<Longrightarrow> k \<le> length a \<Longrightarrow>
   replace_aux old new k (a @ c # b) = replace_aux old new k a @ c # replace_aux old new 0 b"
proof (induction a arbitrary: k)
  case Nil
  then have "\<not> startswith (c # b) old" by (cases old) auto
  then show ?case using Nil by simp
next
  case (Cons x xs)
  show ?case
  proof (cases "0 < k")
    case True
    then show ?thesis using Cons by simp
  next
    case False
    have s: "startswith (x # xs @ c # b) old = startswith (x # xs) old"
      using startswith_sep[of c old "x # xs" b] Cons.prems(1) by simp
    show ?thesis
    proof (cases "startswith (x # xs) old")
      case True
      then have "length old - 1 \<le> length xs" using startswith_length[of "x # xs" old] by simp
      then show ?thesis using Cons.IH[of "length old - 1"] Cons.prems False s True by simp
    next
      case no: False
      then show ?thesis using Cons.IH[of 0] Cons.prems False s by simp
    qed
  qed
qed

lemma replace_aux_skip: "replace_aux old new (length xs) (xs @ b) = replace_aux old new 0 b"
  by (induction xs) auto

lemma startswith_self: "startswith (old @ b) old"
  by (induction old) auto

lemma replace_aux_here:
  assumes "old \<noteq> []"
  shows "replace_aux old new 0 (old @ b) = new @ replace_aux old new 0 b"
proof -
  obtain x xs where o: "old = x # xs" using assms by (cases old) auto
  have "replace_aux old new 0 (old @ b) = new @ replace_aux old new (length xs) (xs @ b)"
    using startswith_self[of old b] by (simp add: o)
  then show ?thesis by (simp add: replace_aux_skip)
qed

lemma and_straddle:
  "u \<noteq> [] \<Longrightarrow> startswith (u @ '' and '' @ b) '' and '' \<Longrightarrow> startswith (u @ '' '') '' and ''"
  by (cases u; cases "tl u"; cases "tl (tl u)"; cases "tl (tl (tl u))"; cases "tl (tl (tl (tl u)))")
    auto

lemma replace_aux_pass:
  "\<not> startswith (x # xs) old \<Longrightarrow> replace_aux old new 0 (x # xs) = x # replace_aux old new 0 xs"
  by simp

lemma replace_and_first:
  "\<not> occurs_in '' and '' (a @ '' '') \<Longrightarrow>
   replace_aux '' and '' new 0 (a @ '' and '' @ b) = a @ new @ replace_aux '' and '' new 0 b"
proof (induction a)
  case Nil
  show ?case using replace_aux_here[of "'' and ''" new b] by simp
next
  case (Cons x xs)
  define sep where "sep = '' and ''"
  have n: "\<not> startswith ((x # xs) @ '' '') sep" "\<not> occurs_in sep (xs @ '' '')"
    using Cons.prems unfolding sep_def by auto
  have "\<not> startswith ((x # xs) @ sep @ b) sep"
    using and_straddle[of "x # xs" b] n(1) unfolding sep_def by blast
  then have "\<not> startswith (x # (xs @ sep @ b)) sep" by simp
  then have "replace_aux sep new 0 (x # (xs @ sep @ b)) = x # replace_aux sep new 0 (xs @ sep @ b)"
    by (rule replace_aux_pass)
  also have "\<dots> = x # (xs @ new @ replace_aux sep new 0 b)"
    using Cons.IH n(2) unfolding sep_def by simp
  finally show ?case unfolding sep_def by simp
qed

lemma startswith_append: "startswith a old \<Longrightarrow> startswith (a @ r) old"
proof (induction a arbitrary: old)
  case Nil
  then show ?case by (cases old) auto
next
  case (Cons x xs)
  then show ?case by (cases old) auto
qed

lemma occurs_in_append: "occurs_in old a \<Longrightarrow> old \<noteq> [] \<Longrightarrow> occurs_in old (a @ r)"
proof (induction a)
  case Nil
  then show ?case by (cases old) auto
next
  case (Cons x xs)
  then show ?case using startswith_append[of "x # xs" old r] by auto
qed

lemma split_on_acc_sep:
  "split_on_acc d (x @ d # y) cur = split_on_acc d x cur @ split_on_acc d y []"
  by (induction x arbitrary: cur) auto

lemma split_authors_norm:
  "split_authors l = filter (\<lambda>p. p \<noteq> []) (map py_strip (py_split_on CHR '','' (norm_authors l)))"
  by (simp add: split_authors_def norm_authors_def)

lemma split_authors_of_norm:
  assumes "norm_authors l = norm_authors a @ CHR '','' # norm_authors b"
  shows "split_authors l = split_authors a @ split_authors b"
  unfolding split_authors_norm assms py_split_on_def split_on_acc_sep by simp

lemma replace_semicolon_append:
  "replace_aux '';'' new 0 (u @ v) = replace_aux '';'' new 0 u @ replace_aux '';'' new 0 v"
  by (simp add: replace_single)

lemma norm_comma: "norm_authors (a @ '','' @ b) = norm_authors a @ CHR '','' # norm_authors b"
proof -
  have 1: "replace_aux '' and '' '','' 0 (a @ CHR '','' # b) =
      replace_aux '' and '' '','' 0 a @ CHR '','' # replace_aux '' and '' '','' 0 b"
    by (rule replace_aux_sep) simp_all
  have 2: "replace_aux '';'' '','' 0 '','' = '',''" by simp
  show ?thesis
    unfolding norm_authors_def py_replace_def
    using 1 replace_semicolon_append[of "'',''" "replace_aux '' and '' '','' 0 a"
        "CHR '','' # replace_aux '' and '' '','' 0 b"]
      replace_semicolon_append[of "'',''" "'',''" "replace_aux '' and '' '','' 0 b"] 2
    by simp
qed

lemma norm_semicolon: "norm_authors (a @ '';'' @ b) = norm_authors a @ CHR '','' # norm_authors b"
proof -
  have 1: "replace_aux '' and '' '','' 0 (a @ CHR '';'' # b) =
      replace_aux '' and '' '','' 0 a @ CHR '';'' # replace_aux '' and '' '','' 0 b"
    by (rule replace_aux_sep) simp_all
  have 2: "replace_aux '';'' '','' 0 '';'' = '',''" by simp
  show ?thesis
    unfolding norm_authors_def py_replace_def
    using 1 replace_semicolon_append[of "'',''" "replace_aux '' and '' '','' 0 a"
        "CHR '';'' # replace_aux '' and '' '','' 0 b"]
      replace_semicolon_append[of "'',''" "'';''" "replace_aux '' and '' '','' 0 b"] 2
    by simp
qed

lemma norm_and:
  assumes "\<not> occurs_in '' and '' (a @ '' '')"
  shows "norm_authors (a @ '' and '' @ b) = norm_authors a @ CHR '','' # norm_authors b"
proof -
  have na: "\<not> occurs_in '' and '' a" using assms occurs_in_append[of "'' and ''" a "'' ''"] by auto
  have 0: "replace_aux '' and '' '','' 0 a = a" using na by (rule replace_none)
  have 1: "replace_aux '' and '' '','' 0 (a @ '' and '' @ b) =
      a @ '','' @ replace_aux '' and '' '','' 0 b"
    using assms by (rule replace_and_first)
  have 2: "replace_aux '';'' '','' 0 '','' = '',''" by simp
  show ?thesis
    unfolding norm_authors_def py_replace_def 0 1
    using replace_semicolon_append[of "'',''" a "'','' @ replace_aux '' and '' '','' 0 b"]
      replace_semicolon_append[of "'',''" "'',''" "replace_aux '' and '' '','' 0 b"] 2
    by simp
qed

lemma split_authors_comma: "split_authors (a @ '','' @ b) = split_authors a @ split_authors b"
  by (rule split_authors_of_norm[OF norm_comma])

lemma split_authors_semicolon: "split_authors (a @ '';'' @ b) = split_authors a @ split_authors b"
  by (rule split_authors_of_norm[OF norm_semicolon])

lemma split_authors_and:
  "\<not> occurs_in '' and '' (a @ '' '') \<Longrightarrow>
   split_authors (a @ '' and '' @ b) = split_authors a @ split_authors b"
  by (rule split_authors_of_norm[OF norm_and])

text \<open>
  Claim C3, as amended. When the heuristic author rule fires (a label among the first five
  non-blank lines, or else a second non-blank line of at most 120 characters), the author
  line is split on commas, on semicolons and on the exact lower-case text
  \<^verbatim>\<open>" and "\<close> (the word between two spaces, matched with its case); each part is trimmed
  and the empty parts are dropped. So every author returned is non-empty, trimmed, and free of
  commas and semicolons; a comma or a semicolon always separates; \<^verbatim>\<open>" and "\<close>
  separates where it is the first occurrence; and a line without any of the three separators
  gives one author, the trimmed line, or none when it is blank.
\<close>

theorem split_authors_separators:
  "(\<forall>p\<in>set (split_authors l).
      p \<noteq> [] \<and> py_strip p = p \<and> CHR '','' \<notin> set p \<and> CHR '';'' \<notin> set p) \<and>
   split_authors (a @ '','' @ b) = split_authors a @ split_authors b \<and>
   split_authors (a @ '';'' @ b) = split_authors a @ split_authors b \<and>
   (\<not> occurs_in '' and '' (a @ '' '') \<longrightarrow>
      split_authors (a @ '' and '' @ b) = split_authors a @ split_authors b) \<and>
   (\<not> occurs_in '' and '' l \<and> CHR '','' \<notin> set l \<and> CHR '';'' \<notin> set l \<longrightarrow>
      split_authors l = (if py_strip l = [] then [] else [py_strip l])) \<and>
   (\<forall>line. first_author_label (take 5 lines) = Some line \<longrightarrow>
      extract_authors lines = split_authors line) \<and>
   (first_author_label (take 5 lines) = None \<and> 1 < length lines \<and> length (lines ! 1) \<le> 120 \<longrightarrow>
      extract_authors lines = split_authors (lines ! 1)) \<and>
   (first_author_label (take 5 lines) = None \<and> \<not> (1 < length lines \<and> length (lines ! 1) \<le> 120) \<longrightarrow>
      extract_authors lines = [])"
proof -
  have 1: "\<forall>p\<in>set (split_authors l).
      p \<noteq> [] \<and> py_strip p = p \<and> CHR '','' \<notin> set p \<and> CHR '';'' \<notin> set p"
    using split_authors_parts by blast
  have 2: "\<not> occurs_in '' and '' l \<and> CHR '','' \<notin> set l \<and> CHR '';'' \<notin> set l \<longrightarrow>
      split_authors l = (if py_strip l = [] then [] else [py_strip l])"
    using split_authors_no_separator by blast
  have 3: "\<forall>line. first_author_label (take 5 lines) = Some line \<longrightarrow>
      extract_authors lines = split_authors line"
    by (simp add: extract_authors_def)
  have 4: "first_author_label (take 5 lines) = None \<and> 1 < length lines \<and> length (lines ! 1) \<le> 120 \<longrightarrow>
      extract_authors lines = split_authors (lines ! 1)"
    by (simp add: extract_authors_def)
  have 5: "first_author_label (take 5 lines) = None \<and> \<not> (1 < length lines \<and> length (lines ! 1) \<le> 120) \<longrightarrow>
      extract_authors lines = []"
    by (auto simp: extract_authors_def)
  show ?thesis
    using 1 2 3 4 5 split_authors_comma[of a b] split_authors_semicolon[of a b]
      split_authors_and[of a b]
    by blast
qed

lemma c3_eval:
  "\<not> occurs_in '' and '' (''Jane Doe'' @ '' '')"
  "split_authors ''Jane Doe'' = [''Jane Doe'']"
  "split_authors ''John Smith'' = [''John Smith'']"
  "first_author_label (take 5 [''A Title'', ''Authors: Jane Doe and John Smith'']) =
     Some ''Jane Doe and John Smith''"
  by code_simp+

theorem split_authors_separators_witness:
  "split_authors ''Jane Doe and John Smith'' = [''Jane Doe'', ''John Smith''] \<and>
   extract_authors [''A Title'', ''Authors: Jane Doe and John Smith''] = [''Jane Doe'', ''John Smith'']"
proof -
  have "split_authors (''Jane Doe'' @ '' and '' @ ''John Smith'') =
      split_authors ''Jane Doe'' @ split_authors ''John Smith''"
    using split_authors_separators[of "[]" "''Jane Doe''" "''John Smith''" "[]"] c3_eval(1)
    by blast
  then have 1: "split_authors ''Jane Doe and John Smith'' = [''Jane Doe'', ''John Smith'']"
    by (simp add: c3_eval)
  have "extract_authors [''A Title'', ''Authors: Jane Doe and John Smith''] =
      split_authors ''Jane Doe and John Smith''"
    using split_authors_separators[of "[]" "[]" "[]" "[''A Title'', ''Authors: Jane Doe and John Smith'']"]
      c3_eval(4)
    by blast
  then show ?thesis using 1 by simp
qed

text \<open>The claim as stated fails: the word in upper case does not separate.\<close>

theorem split_authors_case_sensitive_counterexample:
  "split_authors ''Jane Doe AND John Smith'' = [''Jane Doe AND John Smith''] \<and>
   extract_authors [''A Title'', ''Jane Doe AND John Smith''] = [''Jane Doe AND John Smith''] \<and>
   extract_authors [''A Title'', ''Authors: Jane Doe AND John Smith''] = [''Jane Doe AND John Smith'']"
  by code_simp

subsection \<open>Date parsing\<close>

lemma drop4:
  "Suc (Suc (Suc i)) < length s \<Longrightarrow>
   drop i s = s ! i # s ! Suc i # s ! Suc (Suc i) # s ! Suc (Suc (Suc i)) # drop (Suc (Suc (Suc (Suc i)))) s"
  by (simp add: Cons_nth_drop_Suc)

lemma ms_yyyy:
  assumes "ms False s re_yyyy i g \<noteq> []"
  shows "year_prefix (drop i s)"
proof -
  from assms obtain j h where "(j, h) \<in> set (ms False s re_yyyy i g)"
    by (cases "ms False s re_yyyy i g") auto
  then have a: "Suc (Suc (Suc i)) < length s"
    and b: "(s ! i = CHR ''1'' \<and> s ! Suc i = CHR ''9'') \<or> (s ! i = CHR ''2'' \<and> s ! Suc i = CHR ''0'')"
    and c: "py_isdigit (s ! Suc (Suc i))" "py_isdigit (s ! Suc (Suc (Suc i)))"
    by (auto simp: re_yyyy_def split: if_splits)
  show ?thesis using b c by (subst drop4[OF a]) auto
qed

lemma ms_starts_yyyy:
  assumes "ms False s (Cat WordB (Cat re_yyyy r)) i g \<noteq> []"
  shows "year_prefix (drop i s)"
proof -
  have "ms False s re_yyyy i g \<noteq> []"
  proof
    assume "ms False s re_yyyy i g = []"
    then have "ms False s (Cat WordB (Cat re_yyyy r)) i g = []" by simp
    with assms show False by simp
  qed
  then show ?thesis by (rule ms_yyyy)
qed

lemma has_year_drop: "year_prefix (drop i s) \<Longrightarrow> has_year s"
proof (induction s arbitrary: i)
  case Nil
  then show ?case by simp
next
  case (Cons c cs)
  then show ?case by (cases i) auto
qed

lemma search_from_none:
  "(\<forall>i\<in>set js. ms ic s r i None = []) \<Longrightarrow> search_from ic r s js = None"
  by (induction js) auto

lemma search_none_no_year:
  assumes "\<not> has_year s"
  shows "re_search False (Cat WordB (Cat re_yyyy r)) s = None"
  unfolding re_search_def
proof (rule search_from_none, rule ballI)
  fix i
  show "ms False s (Cat WordB (Cat re_yyyy r)) i None = []"
    using ms_starts_yyyy[of s r i None] has_year_drop[of i s] assms by blast
qed

lemma year_prefix_append: "year_prefix a \<Longrightarrow> year_prefix (a @ b)"
  by (induction a rule: year_prefix.induct) auto

lemma has_year_append_left: "has_year a \<Longrightarrow> has_year (a @ b)"
proof (induction a)
  case Nil
  then show ?case by simp
next
  case (Cons c cs)
  then show ?case using year_prefix_append[of "c # cs" b] by auto
qed

lemma has_year_append_right: "has_year b \<Longrightarrow> has_year (a @ b)"
  by (induction a) auto

lemma has_year_strip: "has_year (py_strip s) \<Longrightarrow> has_year s"
proof -
  assume a: "has_year (py_strip s)"
  let ?z = "dropWhile py_isspace s"
  have "rev ?z = takeWhile py_isspace (rev ?z) @ dropWhile py_isspace (rev ?z)" by simp
  then have "?z = py_strip s @ rev (takeWhile py_isspace (rev ?z))"
    unfolding py_strip_def by (metis rev_append rev_rev_ident)
  then have "has_year ?z" using a has_year_append_left by metis
  moreover have "s = takeWhile py_isspace s @ ?z" by simp
  ultimately show ?thesis using has_year_append_right by metis
qed

lemma parse_no_year:
  assumes "\<not> has_year s"
  shows "parse_publication_date (Some s) = Inr None"
proof -
  have n: "\<not> has_year (py_strip s)" using assms has_year_strip by blast
  have "re_search False re_iso_date (py_strip s) = None"
    "re_search False re_year_month (py_strip s) = None"
    "re_search False re_year (py_strip s) = None"
    unfolding re_iso_date_def re_year_month_def re_year_def
    by (rule search_none_no_year[OF n])+
  then show ?thesis by (simp add: parse_publication_date_def Let_def)
qed

lemma extract_year_no_year: "\<not> has_year s \<Longrightarrow> extract_year s = None"
  unfolding extract_year_def re_year_def by (simp add: search_none_no_year)

lemma ms_Ch_drop:
  "ms ic s (Ch cs) i g =
     (case drop i s of [] \<Rightarrow> [] | x # xs \<Rightarrow> if cs_match ic cs x then [(Suc i, g)] else [])"
proof (cases "i < length s")
  case True
  then have "drop i s = s ! i # drop (Suc i) s" by (simp add: Cons_nth_drop_Suc)
  then show ?thesis using True by simp
next
  case False
  then show ?thesis by simp
qed

lemma drop_Suc_tl: "drop (Suc i) s = tl (drop i s)"
  by (simp add: drop_Suc tl_drop)

lemma digit_bounds: "py_isdigit c \<Longrightarrow> 0 \<le> digit_val c \<and> digit_val c \<le> 9"
  by (auto simp: py_isdigit_def digit_val_def)

lemma digit_word: "py_isdigit c \<Longrightarrow> py_isword c"
  by (simp add: py_isword_def)

lemma digit_not_dash: "py_isdigit c \<Longrightarrow> c \<noteq> CHR ''-''"
  by (auto simp: py_isdigit_def code_def)

lemma century_digits: "century a b \<Longrightarrow> py_isdigit a \<and> py_isdigit b"
  by (auto simp: century_def py_isdigit_def code_def)

lemma century_value: "century a b \<Longrightarrow> 10 * digit_val a + digit_val b = 19 \<or> 10 * digit_val a + digit_val b = 20"
  by (auto simp: century_def digit_val_def code_def)

lemma year_token_shape:
  assumes "year_token t = Some y"
  obtains a b c d rest where "t = a # b # c # d # rest" "century a b" "py_isdigit c" "py_isdigit d"
    "y = 1000 * digit_val a + 100 * digit_val b + 10 * digit_val c + digit_val d"
  using assms by (cases t rule: year_token.cases) (auto split: if_splits)

lemma dash_number_shape:
  assumes "dash_number t = Some m"
  obtains c d rest where "t = CHR ''-'' # c # d # rest" "py_isdigit c" "py_isdigit d"
    "m = 10 * digit_val c + digit_val d"
  using assms by (cases t rule: dash_number.cases) (auto split: if_splits)

lemma ms_re_yyyy:
  "ms False s re_yyyy i g = (if year_token (drop i s) \<noteq> None then [(i + 4, g)] else [])"
proof -
  define t where "t = drop i s"
  have "ms False s re_yyyy i g = (if year_token t \<noteq> None then [(Suc (Suc (Suc (Suc i))), g)] else [])"
    unfolding re_yyyy_def
    by (cases t rule: year_token.cases)
       (auto simp del: ms.simps(2) simp add: ms_Ch_drop drop_Suc_tl century_def simp flip: t_def)
  then show ?thesis by (simp add: t_def)
qed

lemma ms_re_dash2:
  "ms False s re_dash2 i g = (if dash_number (drop i s) \<noteq> None then [(i + 3, g)] else [])"
proof -
  define t where "t = drop i s"
  have "ms False s re_dash2 i g = (if dash_number t \<noteq> None then [(Suc (Suc (Suc i)), g)] else [])"
    unfolding re_dash2_def
    by (cases t rule: dash_number.cases)
       (auto simp del: ms.simps(2) simp add: ms_Ch_drop drop_Suc_tl simp flip: t_def)
  then show ?thesis by (simp add: t_def)
qed

lemma ms_re_year:
  "ms False s re_year i g =
     (if word_boundary s i \<and> year_token (drop i s) \<noteq> None \<and> word_boundary s (i + 4)
      then [(i + 4, g)] else [])"
  unfolding re_year_def by (simp add: ms_re_yyyy)

lemma ms_re_year_month:
  "ms False s re_year_month i g =
     (if word_boundary s i \<and> year_month_token (drop i s) \<noteq> None \<and> word_boundary s (i + 7)
      then [(i + 7, g)] else [])"
  unfolding re_year_month_def
  by (auto simp add: ms_re_yyyy ms_re_dash2 year_month_token_def add.commute split: option.splits)

lemma ms_re_iso_date:
  "ms False s re_iso_date i g =
     (if word_boundary s i \<and> full_date_token (drop i s) \<noteq> None \<and> word_boundary s (i + 10)
      then [(i + 10, g)] else [])"
  unfolding re_iso_date_def
  by (auto simp add: ms_re_yyyy ms_re_dash2 full_date_token_def year_month_token_def add.commute
      split: option.splits)

lemma boundaries_standalone:
  assumes "i + k < length s \<and> s ! (i + k) = d" "py_isword d" "s ! i = a" "py_isword a"
  shows "(word_boundary s i \<and> word_boundary s (i + Suc k)) = standalone s i (Suc k)"
  using assms by (auto simp: word_boundary_def standalone_def)

lemma drop_shape:
  assumes "drop i s = t" "k < length t"
  shows "i + k < length s \<and> s ! (i + k) = t ! k"
proof -
  have "length t = length s - i" using assms(1) by auto
  then have l: "i + k < length s" using assms(2) by arith
  then have "drop i s ! k = s ! (i + k)" by (simp add: nth_drop)
  then show ?thesis using l assms(1) by simp
qed

lemma year_token_standalone:
  assumes "year_token (drop i s) \<noteq> None"
  shows "(word_boundary s i \<and> word_boundary s (i + 4)) = standalone s i 4"
proof -
  from assms obtain y where "year_token (drop i s) = Some y" by blast
  then obtain a b c d rest where t: "drop i s = a # b # c # d # rest"
    and w: "century a b" and w': "py_isdigit d"
    by (rule year_token_shape)
  have "i + 0 < length s \<and> s ! (i + 0) = (a # b # c # d # rest) ! 0"
    by (rule drop_shape[OF t]) simp
  moreover have "i + 3 < length s \<and> s ! (i + 3) = (a # b # c # d # rest) ! 3"
    by (rule drop_shape[OF t]) simp
  ultimately have "(word_boundary s i \<and> word_boundary s (i + Suc 3)) = standalone s i (Suc 3)"
    using century_digits[OF w] digit_word[of a] digit_word[OF w']
    by (intro boundaries_standalone[where a = a and d = d]) simp_all
  then show ?thesis by simp
qed

lemma year_month_token_standalone:
  assumes "year_month_token (drop i s) \<noteq> None"
  shows "(word_boundary s i \<and> word_boundary s (i + 7)) = standalone s i 7"
proof -
  from assms obtain y m where y: "year_token (drop i s) = Some y"
    and m: "dash_number (drop 4 (drop i s)) = Some m"
    by (auto simp: year_month_token_def split: option.splits)
  from y obtain a b c d rest where t: "drop i s = a # b # c # d # rest" and w: "century a b"
    by (rule year_token_shape)
  from m t have "dash_number rest = Some m" by simp
  then obtain e f rest' where r: "rest = CHR ''-'' # e # f # rest'" and w': "py_isdigit f"
    by (rule dash_number_shape)
  have t': "drop i s = a # b # c # d # CHR ''-'' # e # f # rest'" using t r by simp
  have "i + 0 < length s \<and> s ! (i + 0) = (a # b # c # d # CHR ''-'' # e # f # rest') ! 0"
    by (rule drop_shape[OF t']) simp
  moreover have "i + 6 < length s \<and> s ! (i + 6) = (a # b # c # d # CHR ''-'' # e # f # rest') ! 6"
    by (rule drop_shape[OF t']) simp
  ultimately have "(word_boundary s i \<and> word_boundary s (i + Suc 6)) = standalone s i (Suc 6)"
    using century_digits[OF w] digit_word[of a] digit_word[OF w']
    by (intro boundaries_standalone[where a = a and d = f]) simp_all
  then show ?thesis by simp
qed

lemma full_date_token_standalone:
  assumes "full_date_token (drop i s) \<noteq> None"
  shows "(word_boundary s i \<and> word_boundary s (i + 10)) = standalone s i 10"
proof -
  from assms obtain y m d where y: "year_token (drop i s) = Some y"
    and m: "dash_number (drop 4 (drop i s)) = Some m"
    and d: "dash_number (drop 7 (drop i s)) = Some d"
    by (auto simp: full_date_token_def year_month_token_def split: option.splits)
  from y obtain a b c e rest where t: "drop i s = a # b # c # e # rest" and w: "century a b"
    by (rule year_token_shape)
  from m t have "dash_number rest = Some m" by simp
  then obtain f g rest' where r: "rest = CHR ''-'' # f # g # rest'"
    by (rule dash_number_shape)
  from d t r have "dash_number rest' = Some d" by simp
  then obtain h k rest'' where r': "rest' = CHR ''-'' # h # k # rest''" and w': "py_isdigit k"
    by (rule dash_number_shape)
  have t': "drop i s = a # b # c # e # CHR ''-'' # f # g # CHR ''-'' # h # k # rest''"
    using t r r' by simp
  have "i + 0 < length s
      \<and> s ! (i + 0) = (a # b # c # e # CHR ''-'' # f # g # CHR ''-'' # h # k # rest'') ! 0"
    by (rule drop_shape[OF t']) simp
  moreover have "i + 9 < length s
      \<and> s ! (i + 9) = (a # b # c # e # CHR ''-'' # f # g # CHR ''-'' # h # k # rest'') ! 9"
    by (rule drop_shape[OF t']) simp
  ultimately have "(word_boundary s i \<and> word_boundary s (i + Suc 9)) = standalone s i (Suc 9)"
    using century_digits[OF w] digit_word[of a] digit_word[OF w']
    by (intro boundaries_standalone[where a = a and d = k]) simp_all
  then show ?thesis by simp
qed

lemma ms_year_token:
  "ms False s re_year i g = (if token_at year_token 4 s i \<noteq> None then [(i + 4, g)] else [])"
  by (cases "year_token (drop i s) = None")
     (simp_all add: ms_re_year token_at_def year_token_standalone[symmetric])

lemma ms_year_month_token:
  "ms False s re_year_month i g =
     (if token_at year_month_token 7 s i \<noteq> None then [(i + 7, g)] else [])"
  by (cases "year_month_token (drop i s) = None")
     (simp_all add: ms_re_year_month token_at_def year_month_token_standalone[symmetric])

lemma ms_full_date_token:
  "ms False s re_iso_date i g =
     (if token_at full_date_token 10 s i \<noteq> None then [(i + 10, g)] else [])"
  by (cases "full_date_token (drop i s) = None")
     (simp_all add: ms_re_iso_date token_at_def full_date_token_standalone[symmetric])

lemma search_from_first:
  assumes "\<And>i. ms ic s r i None = (if f i \<noteq> None then [(i + n, None)] else [])"
  shows "(search_from ic r s js = None \<and> first_some f js = None)
       \<or> (\<exists>i x. search_from ic r s js = Some \<lparr>m_start = i, m_end = i + n, m_group = None\<rparr>
            \<and> first_some f js = Some x \<and> f i = Some x)"
proof (induction js)
  case Nil
  then show ?case by simp
next
  case (Cons j js)
  show ?case
  proof (cases "f j")
    case None
    then show ?thesis using Cons assms[of j] by simp
  next
    case (Some x)
    then show ?thesis using assms[of j] by simp
  qed
qed

lemma first_some_append:
  "first_some f (xs @ ys) = (case first_some f xs of Some x \<Rightarrow> Some x | None \<Rightarrow> first_some f ys)"
  by (induction xs) (auto split: option.splits)

lemma first_some_end:
  assumes "tok [] = None"
  shows "first_some (token_at tok n s) [0..<Suc (length s)] = leftmost tok n s"
  using assms by (simp add: leftmost_def first_some_append token_at_def split: option.splits)

lemma search_leftmost:
  assumes "\<And>i. ms False s r i None = (if token_at tok n s i \<noteq> None then [(i + n, None)] else [])"
    and "tok [] = None"
  shows "(re_search False r s = None \<and> leftmost tok n s = None)
       \<or> (\<exists>i x. re_search False r s = Some \<lparr>m_start = i, m_end = i + n, m_group = None\<rparr>
            \<and> leftmost tok n s = Some x \<and> tok (drop i s) = Some x)"
proof -
  have "(search_from False r s [0..<Suc (length s)] = None
          \<and> first_some (token_at tok n s) [0..<Suc (length s)] = None)
       \<or> (\<exists>i x. search_from False r s [0..<Suc (length s)]
              = Some \<lparr>m_start = i, m_end = i + n, m_group = None\<rparr>
            \<and> first_some (token_at tok n s) [0..<Suc (length s)] = Some x
            \<and> token_at tok n s i = Some x)"
    by (rule search_from_first[OF assms(1)])
  moreover have "\<And>i x. token_at tok n s i = Some x \<Longrightarrow> tok (drop i s) = Some x"
    by (simp add: token_at_def split: if_splits)
  ultimately show ?thesis unfolding re_search_def first_some_end[of tok, OF assms(2)] by blast
qed

lemma group0_token: "group0 s \<lparr>m_start = i, m_end = i + n, m_group = g\<rparr> = take n (drop i s)"
  by (simp add: group0_def substring_def)

lemma year_token_value:
  assumes "year_token t = Some y"
  shows "py_int (take 4 t) = y \<and> 1900 \<le> y \<and> y \<le> 2099"
proof -
  from assms obtain a b c d rest where t: "t = a # b # c # d # rest"
    and w: "century a b" "py_isdigit c" "py_isdigit d"
    and y: "y = 1000 * digit_val a + 100 * digit_val b + 10 * digit_val c + digit_val d"
    by (rule year_token_shape)
  have "py_int (take 4 t) = y" using t y by (simp add: py_int_def)
  moreover have "1900 \<le> y \<and> y \<le> 2099"
    using century_value[OF w(1)] digit_bounds[OF w(2)] digit_bounds[OF w(3)] y by arith
  ultimately show ?thesis by simp
qed

lemma year_month_token_value:
  assumes "year_month_token t = Some (y, m)"
  shows "py_split_on CHR ''-'' (take 7 t) = [take 4 t, take 2 (drop 5 t)]
       \<and> py_int (take 4 t) = y \<and> py_int (take 2 (drop 5 t)) = m \<and> 1900 \<le> y \<and> y \<le> 2099"
proof -
  from assms have y: "year_token t = Some y" and m: "dash_number (drop 4 t) = Some m"
    by (auto simp: year_month_token_def split: option.splits)
  from y obtain a b c d rest where t: "t = a # b # c # d # rest"
    and w: "century a b" "py_isdigit c" "py_isdigit d"
    by (rule year_token_shape)
  from m t have "dash_number rest = Some m" by simp
  then obtain e f rest' where r: "rest = CHR ''-'' # e # f # rest'"
    and w': "py_isdigit e" "py_isdigit f" and mv: "m = 10 * digit_val e + digit_val f"
    by (rule dash_number_shape)
  have nd: "a \<noteq> CHR ''-''" "b \<noteq> CHR ''-''" "c \<noteq> CHR ''-''" "d \<noteq> CHR ''-''"
    "e \<noteq> CHR ''-''" "f \<noteq> CHR ''-''"
    using century_digits[OF w(1)] w w' digit_not_dash by blast+
  have "py_split_on CHR ''-'' (take 7 t) = [take 4 t, take 2 (drop 5 t)]"
    using t r nd by (simp add: py_split_on_def)
  moreover have "py_int (take 2 (drop 5 t)) = m" using t r mv by (simp add: py_int_def)
  ultimately show ?thesis using year_token_value[OF y] by simp
qed

lemma full_date_token_value:
  assumes "full_date_token t = Some (y, m, d)"
  shows "fromisoformat (take 10 t) = make_date y m d \<and> 1900 \<le> y \<and> y \<le> 2099"
proof -
  from assms have y: "year_token t = Some y" and m: "dash_number (drop 4 t) = Some m"
    and d: "dash_number (drop 7 t) = Some d"
    by (auto simp: full_date_token_def year_month_token_def split: option.splits)
  from y obtain a b c e rest where t: "t = a # b # c # e # rest"
    and w: "century a b" "py_isdigit c" "py_isdigit e"
    and yv: "y = 1000 * digit_val a + 100 * digit_val b + 10 * digit_val c + digit_val e"
    by (rule year_token_shape)
  from m t have "dash_number rest = Some m" by simp
  then obtain f g rest' where r: "rest = CHR ''-'' # f # g # rest'"
    and w': "py_isdigit f" "py_isdigit g" and mv: "m = 10 * digit_val f + digit_val g"
    by (rule dash_number_shape)
  from d t r have "dash_number rest' = Some d" by simp
  then obtain h k rest'' where r': "rest' = CHR ''-'' # h # k # rest''"
    and w'': "py_isdigit h" "py_isdigit k" and dv: "d = 10 * digit_val h + digit_val k"
    by (rule dash_number_shape)
  have t': "take 10 t = [a, b, c, e, CHR ''-'', f, g, CHR ''-'', h, k]"
    using t r r' by simp
  have "fromisoformat [a, b, c, e, CHR ''-'', f, g, CHR ''-'', h, k] = make_date y m d"
    using century_digits[OF w(1)] w w' w'' yv mv dv by (simp add: fromisoformat_def py_int_def)
  then show ?thesis using t' year_token_value[OF y] by simp
qed

lemma calendar_full: "1 \<le> y \<Longrightarrow> y \<le> 9999 \<Longrightarrow> some_date (make_date y m d) = calendar_date y m d"
  by (simp add: some_date_def make_date_def calendar_date_def)

lemma calendar_first: "1 \<le> y \<Longrightarrow> y \<le> 9999 \<Longrightarrow> some_date (make_date y 1 1) = Inr (Some (Date y 1 1))"
  by (simp add: some_date_def make_date_def days_in_month_def)

lemma parse_refines:
  "parse_publication_date v = parse_publication_date_spec v"
proof (cases "truthy v")
  case False
  then show ?thesis
    by (auto simp: parse_publication_date_def parse_publication_date_spec_def truthy_def
        split: option.splits)
next
  case True
  then obtain x where v: "v = Some x" and x: "x \<noteq> []"
    by (auto simp: truthy_def split: option.splits)
  define s where "s = py_strip x"
  have code: "parse_publication_date v =
     (case re_search False re_iso_date s of
        Some m \<Rightarrow> some_date (fromisoformat (group0 s m))
      | None \<Rightarrow>
     (case re_search False re_year_month s of
        Some m \<Rightarrow>
          (case py_split_on CHR ''-'' (group0 s m) of
             [y, mo] \<Rightarrow> some_date (make_date (py_int y) (py_int mo) 1)
           | _ \<Rightarrow> Inl ValueError)
      | None \<Rightarrow>
     (case re_search False re_year s of
        Some m \<Rightarrow> some_date (make_date (py_int (group0 s m)) 1 1)
      | None \<Rightarrow> Inr None)))"
    using True v unfolding s_def by (simp add: parse_publication_date_def Let_def)
  have spec: "parse_publication_date_spec v =
     (case leftmost full_date_token 10 s of
        Some (y, m, d) \<Rightarrow> calendar_date y m d
      | None \<Rightarrow>
     (case leftmost year_month_token 7 s of
        Some (y, m) \<Rightarrow> calendar_date y m 1
      | None \<Rightarrow>
     (case leftmost year_token 4 s of
        Some y \<Rightarrow> Inr (Some (Date y 1 1))
      | None \<Rightarrow> Inr None)))"
    using v x unfolding s_def by (simp add: parse_publication_date_spec_def)
  have full: "(re_search False re_iso_date s = None \<and> leftmost full_date_token 10 s = None)
       \<or> (\<exists>i x. re_search False re_iso_date s = Some \<lparr>m_start = i, m_end = i + 10, m_group = None\<rparr>
            \<and> leftmost full_date_token 10 s = Some x \<and> full_date_token (drop i s) = Some x)"
    by (rule search_leftmost) (simp_all add: ms_full_date_token full_date_token_def year_month_token_def)
  have ym: "(re_search False re_year_month s = None \<and> leftmost year_month_token 7 s = None)
       \<or> (\<exists>i x. re_search False re_year_month s = Some \<lparr>m_start = i, m_end = i + 7, m_group = None\<rparr>
            \<and> leftmost year_month_token 7 s = Some x \<and> year_month_token (drop i s) = Some x)"
    by (rule search_leftmost) (simp_all add: ms_year_month_token year_month_token_def)
  have yr: "(re_search False re_year s = None \<and> leftmost year_token 4 s = None)
       \<or> (\<exists>i x. re_search False re_year s = Some \<lparr>m_start = i, m_end = i + 4, m_group = None\<rparr>
            \<and> leftmost year_token 4 s = Some x \<and> year_token (drop i s) = Some x)"
    by (rule search_leftmost) (simp_all add: ms_year_token)
  show ?thesis
  proof (cases "leftmost full_date_token 10 s")
    case (Some tok)
    obtain y m d where tok: "tok = (y, m, d)" by (cases tok)
    from full Some tok obtain i where
      "re_search False re_iso_date s = Some \<lparr>m_start = i, m_end = i + 10, m_group = None\<rparr>"
      "full_date_token (drop i s) = Some (y, m, d)" by auto
    then show ?thesis
      using Some tok full_date_token_value[of "drop i s" y m d] calendar_full[of y m d]
      by (simp add: code spec group0_token)
  next
    case None
    then have n1: "re_search False re_iso_date s = None" using full by auto
    show ?thesis
    proof (cases "leftmost year_month_token 7 s")
      case (Some tok)
      obtain y m where tok: "tok = (y, m)" by (cases tok)
      from ym Some tok obtain i where
        "re_search False re_year_month s = Some \<lparr>m_start = i, m_end = i + 7, m_group = None\<rparr>"
        "year_month_token (drop i s) = Some (y, m)" by auto
      then show ?thesis
        using None n1 Some tok year_month_token_value[of "drop i s" y m] calendar_full[of y m 1]
        by (simp add: code spec group0_token)
    next
      case None2: None
      then have n2: "re_search False re_year_month s = None" using ym by auto
      show ?thesis
      proof (cases "leftmost year_token 4 s")
        case (Some y)
        from yr Some obtain i where
          "re_search False re_year s = Some \<lparr>m_start = i, m_end = i + 4, m_group = None\<rparr>"
          "year_token (drop i s) = Some y" by auto
        then show ?thesis
          using None n1 None2 n2 Some year_token_value[of "drop i s" y] calendar_first[of y]
          by (simp add: code spec group0_token)
      next
        case None3: None
        then have "re_search False re_year s = None" using yr by auto
        then show ?thesis using None n1 None2 n2 None3 by (simp add: code spec)
      qed
    qed
  qed
qed

text \<open>
  Claim C5, as amended. Date parsing strips the input and tries three patterns in priority
  order, a full date \<^verbatim>\<open>YYYY-MM-DD\<close>, a year and month \<^verbatim>\<open>YYYY-MM\<close>, a bare year
  \<^verbatim>\<open>YYYY\<close>, where \<^verbatim>\<open>YYYY\<close> is 19xx or 20xx; it stops at the first pattern that occurs in
  the input standing alone, that is, with no word character next to it on either side, and
  takes the leftmost such occurrence: when its digits denote a date of the calendar, with a
  missing day or month set to 1, that date is the result. So the input \<^verbatim>\<open>2020-03-15\<close>
  gives the date (2020, 3, 15), \<^verbatim>\<open>2020-03\<close> gives (2020, 3, 1) and \<^verbatim>\<open>2020\<close> gives
  (2020, 1, 1). An input that contains no year of the form 19xx or 20xx, and no input at
  all, give no result.
\<close>

theorem parse_publication_date_patterns:
  "parse_publication_date v = parse_publication_date_spec v \<and>
   parse_publication_date (Some ''2020-03-15'') = Inr (Some (Date 2020 3 15)) \<and>
   parse_publication_date (Some ''2020-03'') = Inr (Some (Date 2020 3 1)) \<and>
   parse_publication_date (Some ''2020'') = Inr (Some (Date 2020 1 1)) \<and>
   (\<not> has_year s \<longrightarrow> parse_publication_date (Some s) = Inr None) \<and>
   parse_publication_date None = Inr None"
proof -
  have "parse_publication_date_spec (Some ''2020-03-15'') = Inr (Some (Date 2020 3 15))"
    "parse_publication_date_spec (Some ''2020-03'') = Inr (Some (Date 2020 3 1))"
    "parse_publication_date_spec (Some ''2020'') = Inr (Some (Date 2020 1 1))"
    by code_simp+
  then have "parse_publication_date (Some ''2020-03-15'') = Inr (Some (Date 2020 3 15))"
    "parse_publication_date (Some ''2020-03'') = Inr (Some (Date 2020 3 1))"
    "parse_publication_date (Some ''2020'') = Inr (Some (Date 2020 1 1))"
    by (simp_all only: parse_refines)
  moreover have "parse_publication_date None = Inr None"
    by (simp add: parse_publication_date_def truthy_def)
  ultimately show ?thesis using parse_refines parse_no_year by blast
qed

lemma c5_eval:
  "parse_publication_date_spec (Some ''Published 2020-03-15 12:30'') = Inr (Some (Date 2020 3 15))"
  "parse_publication_date_spec (Some ''in 2019, or 2020-03'') = Inr (Some (Date 2020 3 1))"
  "parse_publication_date_spec (Some ''vol. 7 (2020), 1999-2001'') = Inr (Some (Date 2020 1 1))"
  "\<not> has_year ''March 15th, 20-20''"
  by code_simp+

theorem parse_publication_date_patterns_witness:
  "parse_publication_date (Some ''Published 2020-03-15 12:30'') = Inr (Some (Date 2020 3 15)) \<and>
   parse_publication_date (Some ''in 2019, or 2020-03'') = Inr (Some (Date 2020 3 1)) \<and>
   parse_publication_date (Some ''vol. 7 (2020), 1999-2001'') = Inr (Some (Date 2020 1 1)) \<and>
   parse_publication_date (Some ''March 15th, 20-20'') = Inr None"
  using parse_publication_date_patterns[of "Some ''Published 2020-03-15 12:30''" "''March 15th, 20-20''"]
    parse_publication_date_patterns[of "Some ''in 2019, or 2020-03''" "''March 15th, 20-20''"]
    parse_publication_date_patterns[of "Some ''vol. 7 (2020), 1999-2001''" "''March 15th, 20-20''"]
    c5_eval
  by simp

text \<open>The claim as stated fails: an input can contain \<^verbatim>\<open>2020-03-15\<close> and give another
  date, or none, when a word character follows or precedes the date or when another date
  stands before it.\<close>

theorem date_inside_longer_input_counterexample:
  "parse_publication_date (Some ''2020-03-15T10:00'') = Inr (Some (Date 2020 3 1)) \<and>
   parse_publication_date (Some ''1999-01-02 2020-03-15'') = Inr (Some (Date 1999 1 2)) \<and>
   parse_publication_date (Some ''x2020-03-15'') = Inr None"
  by code_simp

subsection \<open>Fields that are never empty\<close>

lemma normalize_not_empty: "normalize_whitespace v \<noteq> Some []"
  by (auto simp: normalize_whitespace_def Let_def split: option.splits)

lemma element_text_not_empty: "element_text e \<noteq> Some []"
  by (auto simp: element_text_def normalize_not_empty split: option.splits)

lemma first_class_code_not_empty: "first_class_code cs \<noteq> Some (Some [])"
  by (induction cs) (auto simp: normalize_not_empty)

lemma first_type_term_not_empty: "first_type_term ts \<noteq> Some []"
proof (induction ts)
  case Nil
  then show ?case by simp
next
  case (Cons t ts)
  have "[] \<notin> set document_types" by (simp add: document_types_def)
  then show ?case using Cons by (auto split: if_splits)
qed

lemma extract_document_type_not_empty: "extract_document_type root \<noteq> Some []"
  using normalize_not_empty first_class_code_not_empty first_type_term_not_empty
  by (auto simp: extract_document_type_def Let_def split: option.splits)

lemma extract_abstract_not_empty: "extract_abstract t \<noteq> Some []"
  by (auto simp: extract_abstract_def normalize_not_empty split: option.splits)

lemma nonblank_lines_nonempty: "l \<in> set (nonblank_lines t) \<Longrightarrow> l \<noteq> []"
  by (auto simp: nonblank_lines_def)

lemma extract_title_not_empty: "extract_title (nonblank_lines t) \<noteq> Some []"
proof (cases "nonblank_lines t")
  case Nil
  then show ?thesis by (simp add: extract_title_def)
next
  case (Cons l ls)
  then have "l \<noteq> []" using nonblank_lines_nonempty[of l t] by simp
  then show ?thesis using Cons by (simp add: extract_title_def)
qed

lemma list_or_none_ok: "list_or_absent (Some (list_or_none xs))"
  by (simp add: list_or_absent_def list_or_none_def)

lemma str_val_ok: "v \<noteq> Some [] \<Longrightarrow> text_or_absent (Some (str_val v))"
  by (cases v) (auto simp: text_or_absent_def str_val_def)

lemma grobid_fields_ok:
  assumes "extract_metadata_grobid outcome = Inr (Some d)"
  shows "list_or_absent (dict_get d ''authors'') \<and> list_or_absent (dict_get d ''affiliations'') \<and>
    list_or_absent (dict_get d ''countries'') \<and> list_or_absent (dict_get d ''keywords'') \<and>
    text_or_absent (dict_get d ''abstract'') \<and> text_or_absent (dict_get d ''document_type'')"
proof -
  from grobid_some_record[OF assms] obtain root where "grobid_record root = Inr d" by blast
  from grobid_record_fields[OF this] show ?thesis
    using list_or_none_ok str_val_ok element_text_not_empty extract_document_type_not_empty
    by auto
qed

lemma heuristic_fields_ok:
  assumes "extract_metadata t = Inr d"
  shows "list_or_absent (dict_get d ''authors'') \<and> list_or_absent (dict_get d ''affiliations'') \<and>
    list_or_absent (dict_get d ''countries'') \<and> list_or_absent (dict_get d ''keywords'') \<and>
    text_or_absent (dict_get d ''abstract'') \<and> text_or_absent (dict_get d ''document_type'') \<and>
    text_or_absent (dict_get d ''title'') \<and>
    dict_get d ''journal_title'' = Some PNone \<and> dict_get d ''book_title'' = Some PNone \<and>
    dict_get d ''publisher'' = Some PNone"
proof -
  have n: "list_or_absent (Some PNone)" "text_or_absent (Some PNone)"
    by (simp_all add: list_or_absent_def text_or_absent_def)
  from extract_metadata_fields[OF assms] show ?thesis
    using list_or_none_ok str_val_ok extract_abstract_not_empty extract_title_not_empty n
    by auto
qed

text \<open>
  What holds of every record as finally assembled, by either extractor and after the snippet
  overwrite: each of the fields \<^verbatim>\<open>authors\<close>, \<^verbatim>\<open>affiliations\<close>, \<^verbatim>\<open>countries\<close> and
  \<^verbatim>\<open>keywords\<close> is absent or a list that is not empty, and each of \<^verbatim>\<open>abstract\<close> and
  \<^verbatim>\<open>document_type\<close> is absent or a string that is not empty. When the heuristic extractor
  produced the record, the title is absent or not empty as well, and the journal title, the
  book title and the publisher are absent.
\<close>

lemma final_record_fields_ok:
  assumes "process_document flag src outcome = Inr d"
  shows "list_or_absent (dict_get d ''authors'') \<and> list_or_absent (dict_get d ''affiliations'') \<and>
    list_or_absent (dict_get d ''countries'') \<and> list_or_absent (dict_get d ''keywords'') \<and>
    text_or_absent (dict_get d ''abstract'') \<and> text_or_absent (dict_get d ''document_type'') \<and>
    ((\<not> flag \<or> extract_metadata_grobid outcome = Inr None) \<longrightarrow>
       text_or_absent (dict_get d ''title'') \<and>
       dict_get d ''journal_title'' = Some PNone \<and> dict_get d ''book_title'' = Some PNone \<and>
       dict_get d ''publisher'' = Some PNone)"
proof -
  from process_document_cases[OF assms] obtain t d0 where
    d: "d = dict_set d0 ''raw_text_snippet'' (snippet t)"
    and c: "(flag \<and> extract_metadata_grobid outcome = Inr (Some d0)) \<or>
      ((\<not> flag \<or> extract_metadata_grobid outcome = Inr None) \<and> extract_metadata t = Inr d0)"
    by blast
  have g: "dict_get d k = dict_get d0 k" if "k \<noteq> ''raw_text_snippet''" for k
    using d that by (simp add: dict_get_set)
  have eq: "dict_get d ''authors'' = dict_get d0 ''authors''"
    "dict_get d ''affiliations'' = dict_get d0 ''affiliations''"
    "dict_get d ''countries'' = dict_get d0 ''countries''"
    "dict_get d ''keywords'' = dict_get d0 ''keywords''"
    "dict_get d ''abstract'' = dict_get d0 ''abstract''"
    "dict_get d ''document_type'' = dict_get d0 ''document_type''"
    "dict_get d ''title'' = dict_get d0 ''title''"
    "dict_get d ''journal_title'' = dict_get d0 ''journal_title''"
    "dict_get d ''book_title'' = dict_get d0 ''book_title''"
    "dict_get d ''publisher'' = dict_get d0 ''publisher''"
    by (simp_all add: g)
  from c show ?thesis
  proof
    assume a: "flag \<and> extract_metadata_grobid outcome = Inr (Some d0)"
    then show ?thesis using grobid_fields_ok[of outcome d0] eq by simp
  next
    assume a: "(\<not> flag \<or> extract_metadata_grobid outcome = Inr None) \<and> extract_metadata t = Inr d0"
    then show ?thesis using heuristic_fields_ok[of t d0] eq by simp
  qed
qed

text \<open>
  Claim C6. Every record as finally assembled represents an absent field as no value, never
  as the empty string. The program does not keep to this. A response whose title statement
  holds a title node without text gives a record whose title is the empty string, since
  \<^verbatim>\<open>findtext\<close> gives the empty string for such a node and line 211 stores it as it is; and a
  document whose text is a single space gives a record whose snippet is the empty string,
  since line 407 tests the text before it strips it. The program itself takes the empty
  string for an absent value where it looks for the publisher (lines 204 to 206): a
  publication statement with a publisher node without text, and no publisher in an imprint,
  gives a record without publisher.
\<close>

theorem final_record_stores_empty_string:
  "process_document True (Inl PdfReadError)
     (Answered (Response 200 (Some
        (Element (tei ''TEI'') [] None
           [Element (tei ''titleStmt'') [] None [Element (tei ''title'') [] None [] None] None] None)))) =
   Inr [(''title'', PStr []), (''document_type'', PNone),
        (''publication_date'', PNone), (''journal_title'', PNone),
        (''book_title'', PNone), (''publisher'', PNone),
        (''authors'', PNone), (''affiliations'', PNone),
        (''countries'', PNone), (''abstract'', PNone), (''year'', PNone),
        (''keywords'', PNone), (''raw_text_snippet'', PNone)] \<and>
   process_document False (Inr (Inr [Inr (Some '' '')])) RequestException =
   Inr [(''title'', PNone), (''document_type'', PNone),
        (''publication_date'', PNone), (''journal_title'', PNone),
        (''book_title'', PNone), (''publisher'', PNone),
        (''authors'', PNone), (''affiliations'', PNone),
        (''countries'', PNone), (''abstract'', PNone), (''year'', PNone),
        (''keywords'', PNone), (''raw_text_snippet'', PStr [])] \<and>
   process_document True (Inl PdfReadError)
     (Answered (Response 200 (Some
        (Element (tei ''TEI'') [] None
           [Element (tei ''publicationStmt'') [] None
              [Element (tei ''publisher'') [] None [] None] None] None)))) =
   Inr [(''title'', PNone), (''document_type'', PNone),
        (''publication_date'', PNone), (''journal_title'', PNone),
        (''book_title'', PNone), (''publisher'', PNone),
        (''authors'', PNone), (''affiliations'', PNone),
        (''countries'', PNone), (''abstract'', PNone), (''year'', PNone),
        (''keywords'', PNone), (''raw_text_snippet'', PNone)]"
  by code_simp

subsection \<open>The search for the publication date\<close>

lemma ps_hit_date:
  "parse_publication_date (date_source n) = Inr (Some d) \<Longrightarrow>
   publication_stmt_loop (n # post) (pd, y) = Inr (Some d, Some (date_year d))"
  by (simp add: date_source_def)

lemma ps_hit_year:
  assumes "parse_publication_date (date_source n) = Inr None" "bare_year n = Some y" "y \<noteq> 0"
  shows "publication_stmt_loop (n # post) (pd, y0) = Inr (None, Some y)"
  using assms
  by (auto simp: date_source_def bare_year_def Let_def truthy_int_def split: if_splits option.splits)

lemma ps_pass:
  assumes "yields_nothing n" "\<not> truthy_int y0"
  shows "\<exists>y1. \<not> truthy_int y1 \<and>
    publication_stmt_loop (n # rest) (pd, y0) = publication_stmt_loop rest (None, y1)"
  using assms
  by (auto simp: yields_nothing_def date_source_def bare_year_def Let_def truthy_int_def
      split: if_splits option.splits)

lemma ps_skip:
  assumes "\<forall>m\<in>set pre. yields_nothing m" "\<not> truthy_int y0"
  shows "\<exists>y1. \<not> truthy_int y1 \<and>
    publication_stmt_loop (pre @ rest) (None, y0) = publication_stmt_loop rest (None, y1)"
  using assms
proof (induction pre arbitrary: y0)
  case Nil
  then show ?case by auto
next
  case (Cons m pre)
  from ps_pass[of m y0 "pre @ rest" None] Cons.prems obtain y1 where
    y1: "\<not> truthy_int y1"
      "publication_stmt_loop (m # pre @ rest) (None, y0) = publication_stmt_loop (pre @ rest) (None, y1)"
    by auto
  from Cons.IH[OF _ y1(1)] Cons.prems(1) show ?case using y1(2) by auto
qed

lemma ps_year_alone:
  assumes "publication_stmt_loop es (pd0, y0) = Inr (None, y)" "truthy_int y" "\<not> truthy_int y0"
  shows "\<exists>pre n post. es = pre @ n # post \<and> (\<forall>m\<in>set pre. yields_nothing m) \<and>
    parse_publication_date (date_source n) = Inr None \<and> bare_year n = y"
  using assms
proof (induction es arbitrary: pd0 y0)
  case Nil
  then show ?case by simp
next
  case (Cons e es)
  have p: "parse_publication_date (date_source e) = Inr None"
    using Cons.prems(1) by (auto simp: date_source_def split: sum.splits option.splits)
  show ?case
  proof (cases "bare_year e")
    case None
    then have yn: "yields_nothing e" using p by (simp add: yields_nothing_def)
    from ps_pass[OF yn Cons.prems(3), of es pd0] obtain y1 where
      y1: "\<not> truthy_int y1"
        "publication_stmt_loop (e # es) (pd0, y0) = publication_stmt_loop es (None, y1)"
      by auto
    from Cons.IH[of None y1] y1 Cons.prems obtain pre n post where
      "es = pre @ n # post" "\<forall>m\<in>set pre. yields_nothing m"
      "parse_publication_date (date_source n) = Inr None" "bare_year n = y"
      by auto
    then show ?thesis using yn by (intro exI[of _ "e # pre"] exI[of _ n] exI[of _ post]) auto
  next
    case (Some b)
    then have "b \<noteq> 0" by (auto simp: bare_year_def truthy_int_def split: if_splits)
    from ps_hit_year[OF p Some this, of es pd0 y0] Cons.prems(1) have "y = Some b" by simp
    then show ?thesis using p Some by (intro exI[of _ "[]"] exI[of _ e] exI[of _ es]) auto
  qed
qed

lemma im_none:
  "imprint_loop es (pd0, y0) = Inr (None, y) \<Longrightarrow>
   es \<noteq> [] \<or> pd0 = None \<Longrightarrow>
   y = y0 \<and> (\<forall>m\<in>set es. parse_publication_date (date_source m) = Inr None)"
proof (induction es arbitrary: pd0)
  case Nil
  then show ?case by simp
next
  case (Cons e es)
  then show ?case
    by (auto simp: date_source_def split: sum.splits option.splits)
qed

lemma im_skip:
  "\<forall>m\<in>set pre. parse_publication_date (date_source m) = Inr None \<Longrightarrow>
   imprint_loop (pre @ rest) (None, y0) = imprint_loop rest (None, y0)"
  by (induction pre) (auto simp: date_source_def)

lemma im_hit:
  "parse_publication_date (date_source n) = Inr (Some d) \<Longrightarrow>
   imprint_loop (n # post) (pd, y) = Inr (Some d, Some (date_year d))"
  by (simp add: date_source_def)

lemma extract_dates_pub_date:
  assumes "publication_stmt_dates root = pre @ m # post" "\<forall>x\<in>set pre. yields_nothing x"
    "parse_publication_date (date_source m) = Inr (Some d)"
  shows "extract_dates root = Inr (Some d, Some (date_year d))"
proof -
  from ps_skip[OF assms(2), of None "m # post"] obtain y1 where
    "publication_stmt_loop (pre @ m # post) (None, None) = publication_stmt_loop (m # post) (None, y1)"
    by (auto simp: truthy_int_def)
  then have "publication_stmt_loop (publication_stmt_dates root) (None, None) =
      Inr (Some d, Some (date_year d))"
    using ps_hit_date[OF assms(3)] assms(1) by simp
  then show ?thesis by (simp add: extract_dates_def)
qed

lemma extract_dates_year_alone:
  assumes "publication_stmt_dates root = pre @ m # post" "\<forall>x\<in>set pre. yields_nothing x"
    "parse_publication_date (date_source m) = Inr None" "bare_year m = Some y"
    "\<forall>x\<in>set (imprint_dates root). parse_publication_date (date_source x) = Inr None"
  shows "extract_dates root = Inr (None, Some y)"
proof -
  have y0: "y \<noteq> 0" using assms(4) by (auto simp: bare_year_def truthy_int_def split: if_splits)
  from ps_skip[OF assms(2), of None "m # post"] obtain y1 where
    "publication_stmt_loop (pre @ m # post) (None, None) = publication_stmt_loop (m # post) (None, y1)"
    by (auto simp: truthy_int_def)
  then have 1: "publication_stmt_loop (publication_stmt_dates root) (None, None) = Inr (None, Some y)"
    using ps_hit_year[OF assms(3,4) y0] assms(1) by simp
  have 2: "imprint_loop (imprint_dates root) (None, Some y) = Inr (None, Some y)"
    using im_skip[OF assms(5), of "[]" "Some y"] by simp
  show ?thesis using 1 2 by (simp add: extract_dates_def)
qed

lemma extract_dates_imprint:
  assumes "publication_stmt_loop (publication_stmt_dates root) (None, None) = Inr (None, y)"
    "imprint_dates root = pre @ m # post"
    "\<forall>x\<in>set pre. parse_publication_date (date_source x) = Inr None"
    "parse_publication_date (date_source m) = Inr (Some d)"
  shows "extract_dates root = Inr (Some d, Some (date_year d))"
proof -
  have "imprint_loop (imprint_dates root) (None, y) = Inr (Some d, Some (date_year d))"
    using im_skip[OF assms(3), of "m # post" y] im_hit[OF assms(4)] assms(2) by simp
  then show ?thesis using assms(1) by (simp add: extract_dates_def)
qed

lemma extract_dates_year_alone_only:
  assumes "extract_dates root = Inr (None, y)" "truthy_int y"
  shows "(\<exists>pre m post. publication_stmt_dates root = pre @ m # post \<and>
      (\<forall>x\<in>set pre. yields_nothing x) \<and>
      parse_publication_date (date_source m) = Inr None \<and> bare_year m = y) \<and>
    (\<forall>x\<in>set (imprint_dates root). parse_publication_date (date_source x) = Inr None)"
proof -
  from assms(1) obtain y1 where
    1: "publication_stmt_loop (publication_stmt_dates root) (None, None) = Inr (None, y1)"
    and 2: "imprint_loop (imprint_dates root) (None, y1) = Inr (None, y)"
    by (auto simp: extract_dates_def split: sum.splits prod.splits if_splits)
  from im_none[OF 2] have 3: "y = y1"
    "\<forall>x\<in>set (imprint_dates root). parse_publication_date (date_source x) = Inr None"
    by auto
  have "\<not> truthy_int None" by (simp add: truthy_int_def)
  from ps_year_alone[OF 1[folded 3(1)] assms(2) this] show ?thesis using 3(2) by blast
qed

text \<open>
  Claim C4, as amended. In the structured-service extractor the date nodes of the publication
  statement are scanned first and in order; of each node the \<^verbatim>\<open>when\<close> attribute is
  parsed when it is present and not empty, else the text. The scan stops at the first node
  that gives a date or, failing that, a bare year (from its text, else from its attribute);
  the nodes after it are not looked at. The first date found there is the publication date
  and gives the year. Only when the scan ends without a date are the date nodes of the
  imprint searched, and there only for a date. The year is stored alone, with the publication
  date absent, exactly when the scan stopped at a bare year and no date node of the imprint
  gives a date; then no node of the publication statement up to the one where the scan
  stopped gives a date.
\<close>

theorem publication_date_search_order:
  "(truthy (attrib_get n ''when'') \<longrightarrow> date_source n = attrib_get n ''when'') \<and>
   (\<not> truthy (attrib_get n ''when'') \<longrightarrow> date_source n = el_text n) \<and>
   (publication_stmt_dates root = pre @ m # post \<and> (\<forall>x\<in>set pre. yields_nothing x) \<and>
    parse_publication_date (date_source m) = Inr (Some d) \<longrightarrow>
      extract_dates root = Inr (Some d, Some (date_year d))) \<and>
   (publication_stmt_dates root = pre @ m # post \<and> (\<forall>x\<in>set pre. yields_nothing x) \<and>
    parse_publication_date (date_source m) = Inr None \<and> bare_year m = Some y \<and>
    (\<forall>x\<in>set (imprint_dates root). parse_publication_date (date_source x) = Inr None) \<longrightarrow>
      extract_dates root = Inr (None, Some y)) \<and>
   (publication_stmt_loop (publication_stmt_dates root) (None, None) = Inr (None, y') \<and>
    imprint_dates root = ipre @ im # ipost \<and>
    (\<forall>x\<in>set ipre. parse_publication_date (date_source x) = Inr None) \<and>
    parse_publication_date (date_source im) = Inr (Some d) \<longrightarrow>
      extract_dates root = Inr (Some d, Some (date_year d))) \<and>
   (extract_dates root = Inr (None, yr) \<and> truthy_int yr \<longrightarrow>
      (\<exists>pre m post. publication_stmt_dates root = pre @ m # post \<and>
         (\<forall>x\<in>set pre. yields_nothing x) \<and>
         parse_publication_date (date_source m) = Inr None \<and> bare_year m = yr) \<and>
      (\<forall>x\<in>set (imprint_dates root). parse_publication_date (date_source x) = Inr None))"
proof -
  have 1: "truthy (attrib_get n ''when'') \<longrightarrow> date_source n = attrib_get n ''when''"
    "\<not> truthy (attrib_get n ''when'') \<longrightarrow> date_source n = el_text n"
    by (simp_all add: date_source_def py_or_def)
  show ?thesis
    using 1 extract_dates_pub_date[of root pre m post d]
      extract_dates_year_alone[of root pre m post y]
      extract_dates_imprint[of root y' ipre im ipost d]
      extract_dates_year_alone_only[of root yr]
    by blast
qed

lemma c4_eval:
  "publication_stmt_dates
     (Element (tei ''TEI'') [] None
        [Element (tei ''publicationStmt'') [] None
           [Element (tei ''date'') [(''when'', ''n/a'')] (Some ''2020'') [] None] None] None) =
     [] @ Element (tei ''date'') [(''when'', ''n/a'')] (Some ''2020'') [] None # []"
  "\<forall>x\<in>set []. yields_nothing x"
  "parse_publication_date (date_source (Element (tei ''date'') [(''when'', ''n/a'')] (Some ''2020'') [] None)) =
     Inr None"
  "bare_year (Element (tei ''date'') [(''when'', ''n/a'')] (Some ''2020'') [] None) = Some 2020"
  "\<forall>x\<in>set (imprint_dates
     (Element (tei ''TEI'') [] None
        [Element (tei ''publicationStmt'') [] None
           [Element (tei ''date'') [(''when'', ''n/a'')] (Some ''2020'') [] None] None] None)).
     parse_publication_date (date_source x) = Inr None"
  by code_simp+

theorem publication_date_search_order_witness:
  "extract_dates
     (Element (tei ''TEI'') [] None
        [Element (tei ''publicationStmt'') [] None
           [Element (tei ''date'') [(''when'', ''n/a'')] (Some ''2020'') [] None] None] None) =
   Inr (None, Some 2020)"
  using publication_date_search_order[of
      "Element (tei ''date'') [(''when'', ''n/a'')] (Some ''2020'') [] None"
      "Element (tei ''TEI'') [] None
        [Element (tei ''publicationStmt'') [] None
           [Element (tei ''date'') [(''when'', ''n/a'')] (Some ''2020'') [] None] None] None"
      "[]" "Element (tei ''date'') [(''when'', ''n/a'')] (Some ''2020'') [] None" "[]"
      "Date 2020 1 1" 2020 None "[]" "Element (tei ''date'') [] None [] None" "[]" None]
    c4_eval
  by blast

text \<open>The claim as stated fails: the year is stored alone although a later date node of the
  publication statement gives a full date, because the scan stopped at the bare year of the
  node before it.\<close>

theorem year_alone_despite_later_date_counterexample:
  "publication_stmt_dates
     (Element (tei ''TEI'') [] None
        [Element (tei ''publicationStmt'') [] None
           [Element (tei ''date'') [(''when'', ''n/a'')] (Some ''2020'') [] None,
            Element (tei ''date'') [(''when'', ''2021-05-06'')] None [] None] None] None) =
     [Element (tei ''date'') [(''when'', ''n/a'')] (Some ''2020'') [] None,
      Element (tei ''date'') [(''when'', ''2021-05-06'')] None [] None] \<and>
   parse_publication_date (date_source (Element (tei ''date'') [(''when'', ''2021-05-06'')] None [] None)) =
     Inr (Some (Date 2021 5 6)) \<and>
   extract_metadata_grobid (Answered (Response 200 (Some
     (Element (tei ''TEI'') [] None
        [Element (tei ''publicationStmt'') [] None
           [Element (tei ''date'') [(''when'', ''n/a'')] (Some ''2020'') [] None,
            Element (tei ''date'') [(''when'', ''2021-05-06'')] None [] None] None] None)))) =
   Inr (Some
       [(''title'', PNone), (''document_type'', PNone),
        (''publication_date'', PNone), (''journal_title'', PNone),
        (''book_title'', PNone), (''publisher'', PNone),
        (''authors'', PNone), (''affiliations'', PNone),
        (''countries'', PNone), (''abstract'', PNone), (''year'', PInt 2020),
        (''keywords'', PNone)])"
  by code_simp

end
